theory Spec2Isabelle
  imports Complex_Main "HOL-Library.AList"
begin

section \<open>JavaScript values\<close>

text \<open>
  The pixel is dynamically typed: every function of \<^verbatim>\<open>index.js\<close> takes whatever the
  storefront delivers. Event data is therefore modelled as JSON-like values extended with
  \<^verbatim>\<open>undefined\<close>. An object is the list of its own properties in insertion order; functions
  and symbols are not values of the model, so a property that is called as a method on
  an object is never callable.

  Strings are lists of code units restricted to the range 0..255.

  A number is NaN, one of the two infinities, or finite: then it is given by its value,
  the rational that a binary64 double holds. Arithmetic and the reading of numbers
  compute the exact result and round it to the nearest double, ties to even, as IEEE 754
  prescribes; a result beyond the range is infinite. The sign of zero is the one thing
  the model leaves out.
\<close>

datatype jsnum = NaN | PosInf | NegInf | Fin rat

datatype jsval =
    Undefined
  | Null
  | Bool bool
  | Num jsnum
  | Str string
  | Arr "jsval list"
  | Obj "(string \<times> jsval) list"

text \<open>The only fault the pixel's own code can raise is a TypeError (a property read on
  \<^verbatim>\<open>undefined\<close>/\<^verbatim>\<open>null\<close>, a call of something that is not a function); the analytics sink
  may throw any value.\<close>

datatype error = TypeError | Thrown jsval

definition bindE :: "error + 'a \<Rightarrow> ('a \<Rightarrow> error + 'b) \<Rightarrow> error + 'b" where
  "bindE m f = (case m of Inl e \<Rightarrow> Inl e | Inr x \<Rightarrow> f x)"

subsection \<open>Numbers\<close>

text \<open>
  Rounding a rational to binary64. For \<open>a > 0\<close>, \<open>binary_exponent a\<close> is the \<open>e\<close> with
  \<open>2\<^sup>e \<le> a < 2\<^sup>e\<^sup>+\<^sup>1\<close>. A double has 53 significant bits and exponents from -1022 (below
  that the subnormal numbers keep the spacing \<open>2\<^sup>-\<^sup>1\<^sup>0\<^sup>7\<^sup>4\<close>), so the doubles around \<open>a\<close> are the
  multiples of \<open>2 ^ (max e (-1022) - 52)\<close>; the nearest is taken, the one with the even
  multiplier in a tie, and a result of \<open>2\<^sup>1\<^sup>0\<^sup>2\<^sup>4\<close> or more is infinite.
\<close>

definition pow2 :: "int \<Rightarrow> rat" where
  "pow2 e = (if 0 \<le> e then 2 ^ nat e else 1 / 2 ^ nat (- e))"

function bit_length :: "nat \<Rightarrow> nat" where
  "bit_length n = (if n = 0 then 0 else Suc (bit_length (n div 2)))"
  by pat_completeness auto
termination
  by (relation "measure id") auto

definition adjust_exponent :: "rat \<Rightarrow> int \<Rightarrow> int" where
  "adjust_exponent a e = (if pow2 (e + 1) \<le> a then e + 1 else e)"

definition binary_exponent :: "rat \<Rightarrow> int" where
  "binary_exponent a =
    (if 1 \<le> a then int (bit_length (nat \<lfloor>a\<rfloor>)) - 1
     else adjust_exponent a (- int (bit_length (nat \<lfloor>1 / a\<rfloor>))))"

definition nearest_even :: "rat \<Rightarrow> int \<Rightarrow> int" where
  "nearest_even m f =
    (if m - of_int f < 1 / 2 then f
     else if 1 / 2 < m - of_int f then f + 1
     else if even f then f else f + 1)"

definition round_half_even :: "rat \<Rightarrow> int" where
  "round_half_even m = nearest_even m \<lfloor>m\<rfloor>"

definition round_to_ulp :: "rat \<Rightarrow> rat \<Rightarrow> rat" where
  "round_to_ulp a ulp = of_int (round_half_even (a / ulp)) * ulp"

definition in_range :: "bool \<Rightarrow> rat \<Rightarrow> jsnum" where
  "in_range positive r =
    (if pow2 1024 \<le> r then (if positive then PosInf else NegInf)
     else Fin (if positive then r else - r))"

definition round_double :: "rat \<Rightarrow> jsnum" where
  "round_double q =
    (if q = 0 then Fin 0
     else in_range (0 < q)
            (round_to_ulp \<bar>q\<bar> (pow2 (max (binary_exponent \<bar>q\<bar>) (- 1022) - 52))))"

text \<open>The operators \<^verbatim>\<open>+\<close> and \<^verbatim>\<open>*\<close> on numbers.\<close>

fun num_add :: "jsnum \<Rightarrow> jsnum \<Rightarrow> jsnum" where
  "num_add NaN _ = NaN"
| "num_add _ NaN = NaN"
| "num_add PosInf NegInf = NaN"
| "num_add NegInf PosInf = NaN"
| "num_add PosInf _ = PosInf"
| "num_add _ PosInf = PosInf"
| "num_add NegInf _ = NegInf"
| "num_add _ NegInf = NegInf"
| "num_add (Fin a) (Fin b) = round_double (a + b)"

definition num_neg :: "jsnum \<Rightarrow> jsnum" where
  "num_neg n = (case n of NaN \<Rightarrow> NaN | PosInf \<Rightarrow> NegInf | NegInf \<Rightarrow> PosInf | Fin a \<Rightarrow> Fin (- a))"

definition inf_times :: "rat \<Rightarrow> jsnum" where
  "inf_times a = (if a = 0 then NaN else if 0 < a then PosInf else NegInf)"

fun num_mul :: "jsnum \<Rightarrow> jsnum \<Rightarrow> jsnum" where
  "num_mul NaN _ = NaN"
| "num_mul _ NaN = NaN"
| "num_mul (Fin a) (Fin b) = round_double (a * b)"
| "num_mul (Fin a) PosInf = inf_times a"
| "num_mul (Fin a) NegInf = inf_times (- a)"
| "num_mul PosInf (Fin b) = inf_times b"
| "num_mul NegInf (Fin b) = inf_times (- b)"
| "num_mul PosInf PosInf = PosInf"
| "num_mul NegInf NegInf = PosInf"
| "num_mul PosInf NegInf = NegInf"
| "num_mul NegInf PosInf = NegInf"

subsection \<open>Strings\<close>

text \<open>White space and line terminators in the code-unit range of the model
  (TAB, LF, VT, FF, CR, SP, NBSP): what \<^verbatim>\<open>trim\<close> strips and number parsing skips.\<close>

definition is_ws :: "char \<Rightarrow> bool" where
  "is_ws c = (c \<in> set [CHR 0x09, CHR 0x0A, CHR 0x0B, CHR 0x0C, CHR 0x0D, CHR 0x20, CHR 0xA0])"

definition trim :: "string \<Rightarrow> string" where
  "trim s = rev (dropWhile is_ws (rev (dropWhile is_ws s)))"

definition starts_with :: "string \<Rightarrow> string \<Rightarrow> bool" where
  "starts_with s p = (take (length p) s = p)"

text \<open>\<^verbatim>\<open>s.endsWith(t)\<close> and \<^verbatim>\<open>s.slice(0, -n)\<close> for \<open>n > 0\<close>.\<close>

definition ends_with :: "string \<Rightarrow> string \<Rightarrow> bool" where
  "ends_with s t = (length t \<le> length s \<and> drop (length s - length t) s = t)"

definition slice_off :: "string \<Rightarrow> nat \<Rightarrow> string" where
  "slice_off s n = take (length s - n) s"

subsection \<open>Decimal digits\<close>

definition digit_char :: "nat \<Rightarrow> char" where
  "digit_char d = ''0123456789'' ! (d mod 10)"

function nat_digits :: "nat \<Rightarrow> string" where
  "nat_digits n = (if n < 10 then [digit_char n] else nat_digits (n div 10) @ [digit_char (n mod 10)])"
  by pat_completeness auto
termination
  by (relation "measure id") auto

definition digit_table :: "(char \<times> nat) list" where
  "digit_table =
    [(CHR ''0'', 0), (CHR ''1'', 1), (CHR ''2'', 2), (CHR ''3'', 3), (CHR ''4'', 4),
     (CHR ''5'', 5), (CHR ''6'', 6), (CHR ''7'', 7), (CHR ''8'', 8), (CHR ''9'', 9),
     (CHR ''a'', 10), (CHR ''b'', 11), (CHR ''c'', 12), (CHR ''d'', 13), (CHR ''e'', 14),
     (CHR ''f'', 15),
     (CHR ''A'', 10), (CHR ''B'', 11), (CHR ''C'', 12), (CHR ''D'', 13), (CHR ''E'', 14),
     (CHR ''F'', 15)]"

text \<open>The value of a digit character in a given radix, if it is one.\<close>

definition digit_in :: "nat \<Rightarrow> char \<Rightarrow> nat option" where
  "digit_in b c = (case map_of digit_table c of
      Some d \<Rightarrow> if d < b then Some d else None
    | None \<Rightarrow> None)"

definition is_digit :: "char \<Rightarrow> bool" where
  "is_digit c = (digit_in 10 c \<noteq> None)"

definition digits_value :: "nat \<Rightarrow> string \<Rightarrow> nat" where
  "digits_value b ds = foldl (\<lambda>a c. b * a + (case digit_in b c of Some d \<Rightarrow> d | None \<Rightarrow> 0)) 0 ds"

subsection \<open>Reading numbers from strings\<close>

text \<open>
  The decimal literal grammar shared by \<^verbatim>\<open>parseFloat\<close> and the conversion of a string to a
  number: an optional sign, then \<^verbatim>\<open>Infinity\<close>, or digits with an optional fraction and an
  optional exponent. \<open>parse_signed\<close> returns the value of the longest prefix that is such
  a literal, rounded to a double, with the rest of the string, or \<open>None\<close> when no prefix
  is one.
\<close>

definition parse_exponent :: "string \<Rightarrow> int \<times> string" where
  "parse_exponent s = (case s of
      [] \<Rightarrow> (0, s)
    | c # t \<Rightarrow>
        if c = CHR ''e'' \<or> c = CHR ''E'' then
          (let neg = (t \<noteq> [] \<and> hd t = CHR ''-'');
               u = (if t \<noteq> [] \<and> (hd t = CHR ''-'' \<or> hd t = CHR ''+'') then tl t else t);
               ds = takeWhile is_digit u
           in if ds = [] then (0, s)
              else ((if neg then - int (digits_value 10 ds) else int (digits_value 10 ds)),
                    dropWhile is_digit u))
        else (0, s))"

definition scale10 :: "rat \<Rightarrow> int \<Rightarrow> rat" where
  "scale10 q e = (if 0 \<le> e then q * 10 ^ nat e else q / 10 ^ nat (- e))"

definition parse_unsigned :: "string \<Rightarrow> (jsnum \<times> string) option" where
  "parse_unsigned s =
    (if starts_with s ''Infinity'' then Some (PosInf, drop 8 s)
     else
       let ip = takeWhile is_digit s;
           r1 = dropWhile is_digit s;
           has_frac = (r1 \<noteq> [] \<and> hd r1 = CHR ''.'' \<and> (ip \<noteq> [] \<or> takeWhile is_digit (tl r1) \<noteq> []));
           fp = (if has_frac then takeWhile is_digit (tl r1) else []);
           r2 = (if has_frac then dropWhile is_digit (tl r1) else r1)
       in if ip = [] \<and> fp = [] then None
          else
            let m = of_nat (digits_value 10 ip) + of_nat (digits_value 10 fp) / 10 ^ length fp;
                er = parse_exponent r2
            in Some (round_double (scale10 m (fst er)), snd er))"

definition parse_signed :: "string \<Rightarrow> (jsnum \<times> string) option" where
  "parse_signed s = (case s of
      [] \<Rightarrow> None
    | c # t \<Rightarrow>
        if c = CHR ''+'' then parse_unsigned t
        else if c = CHR ''-'' then map_option (\<lambda>(v, r). (num_neg v, r)) (parse_unsigned t)
        else parse_unsigned s)"

text \<open>\<^verbatim>\<open>parseFloat\<close> on a string: leading white space is skipped, then the longest literal
  prefix is read; NaN when there is none.\<close>

definition parse_float :: "string \<Rightarrow> jsnum" where
  "parse_float s = (case parse_signed (dropWhile is_ws s) of
      Some (v, _) \<Rightarrow> v
    | None \<Rightarrow> NaN)"

text \<open>Hexadecimal, octal and binary integer literals (\<^verbatim>\<open>0x1F\<close>, \<^verbatim>\<open>0o17\<close>, \<^verbatim>\<open>0b101\<close>).\<close>

definition radix_literal :: "string \<Rightarrow> nat option" where
  "radix_literal s = (case s of
      z # x # ds \<Rightarrow>
        (let b = (if x = CHR ''x'' \<or> x = CHR ''X'' then 16
                  else if x = CHR ''o'' \<or> x = CHR ''O'' then 8
                  else if x = CHR ''b'' \<or> x = CHR ''B'' then 2 else (0::nat))
         in if z = CHR ''0'' \<and> b \<noteq> 0 \<and> ds \<noteq> [] \<and> list_all (\<lambda>c. digit_in b c \<noteq> None) ds
            then Some (digits_value b ds) else None)
    | _ \<Rightarrow> None)"

text \<open>The conversion of a string to a number that arithmetic applies to a string operand:
  the whole trimmed string has to be a literal, and the empty string is 0.\<close>

definition string_to_number :: "string \<Rightarrow> jsnum" where
  "string_to_number s =
    (let t = trim s
     in if t = [] then Fin 0
        else case radix_literal t of
          Some n \<Rightarrow> round_double (of_nat n)
        | None \<Rightarrow> (case parse_signed t of
              Some (v, r) \<Rightarrow> if r = [] then v else NaN
            | None \<Rightarrow> NaN))"

subsection \<open>Writing numbers as strings\<close>

text \<open>
  \<^verbatim>\<open>Number.prototype.toString\<close>: the shortest digit string \<open>s\<close>, of \<open>k\<close> digits, and the
  exponent \<open>n\<close> such that \<open>s \<times> 10 ^ (n - k)\<close> rounds to the number; among the strings of
  that length the one nearest to the number. For \<open>a > 0\<close>, \<open>decimal_exponent a\<close> is the \<open>n\<close>
  with \<open>10 ^ (n - 1) \<le> a < 10 ^ n\<close>. No double needs more than 17 digits.
\<close>

definition pow10 :: "int \<Rightarrow> rat" where
  "pow10 e = (if 0 \<le> e then 10 ^ nat e else 1 / 10 ^ nat (- e))"

definition adjust_decimal :: "rat \<Rightarrow> int \<Rightarrow> int" where
  "adjust_decimal a n = (if pow10 n \<le> a then n + 1 else n)"

definition decimal_exponent :: "rat \<Rightarrow> int" where
  "decimal_exponent a =
    (if 1 \<le> a then int (length (nat_digits (nat \<lfloor>a\<rfloor>)))
     else adjust_decimal a (1 - int (length (nat_digits (nat \<lfloor>1 / a\<rfloor>)))))"

definition round_trips :: "rat \<Rightarrow> int \<Rightarrow> int \<Rightarrow> bool" where
  "round_trips a s e = (round_double (of_int s * pow10 e) = Fin a)"

text \<open>Of the two multiples of \<open>10 ^ e\<close> around \<open>a\<close>, \<open>lo\<close> and \<open>lo + 1\<close>, the nearer one
  that rounds to \<open>a\<close>, else the other one if it does.\<close>

definition pick_digits :: "rat \<Rightarrow> int \<Rightarrow> int \<Rightarrow> int option" where
  "pick_digits a e lo =
    (if a / pow10 e - of_int lo \<le> 1 / 2
     then (if round_trips a lo e then Some lo
           else if round_trips a (lo + 1) e then Some (lo + 1) else None)
     else (if round_trips a (lo + 1) e then Some (lo + 1)
           else if round_trips a lo e then Some lo else None))"

function shortest_digits :: "nat \<Rightarrow> rat \<Rightarrow> int \<Rightarrow> int \<times> nat" where
  "shortest_digits k a n =
    (case pick_digits a (n - int k) \<lfloor>a / pow10 (n - int k)\<rfloor> of
       Some s \<Rightarrow> (s, k)
     | None \<Rightarrow>
         if 17 \<le> k then (\<lfloor>a / pow10 (n - int k)\<rfloor>, k)
         else shortest_digits (Suc k) a n)"
  by pat_completeness auto
termination
  by (relation "measure (\<lambda>(k, a, n). 17 - k)") auto

definition strip_zeros :: "string \<Rightarrow> string" where
  "strip_zeros ds = rev (dropWhile (\<lambda>c. c = CHR ''0'') (rev ds))"

text \<open>The digits \<open>ds\<close> with the decimal point after the first \<open>n\<close> of them: plain
  notation for \<open>-6 < n \<le> 21\<close>, exponent notation otherwise.\<close>

definition format_digits :: "string \<Rightarrow> int \<Rightarrow> string" where
  "format_digits ds n =
    (let k = int (length ds)
     in if k \<le> n \<and> n \<le> 21 then ds @ replicate (nat (n - k)) (CHR ''0'')
        else if 0 < n \<and> n \<le> 21 then take (nat n) ds @ ''.'' @ drop (nat n) ds
        else if - 6 < n \<and> n \<le> 0 then ''0.'' @ replicate (nat (- n)) (CHR ''0'') @ ds
        else (if k = 1 then ds else take 1 ds @ ''.'' @ drop 1 ds) @ ''e'' @
             (if n - 1 < 0 then ''-'' else ''+'') @ nat_digits (nat \<bar>n - 1\<bar>))"

definition digits_of :: "int \<times> nat \<Rightarrow> int \<Rightarrow> string" where
  "digits_of sk n =
    format_digits (strip_zeros (nat_digits (nat (fst sk))))
      (n + int (length (nat_digits (nat (fst sk)))) - int (snd sk))"

definition positive_to_string :: "rat \<Rightarrow> string" where
  "positive_to_string a = digits_of (shortest_digits 1 a (decimal_exponent a)) (decimal_exponent a)"

definition number_to_string :: "jsnum \<Rightarrow> string" where
  "number_to_string n = (case n of
      NaN \<Rightarrow> ''NaN''
    | PosInf \<Rightarrow> ''Infinity''
    | NegInf \<Rightarrow> ''-Infinity''
    | Fin q \<Rightarrow>
        if q = 0 then ''0''
        else if q < 0 then ''-'' @ positive_to_string (- q)
        else positive_to_string q)"

subsection \<open>Conversions and property access\<close>

text \<open>
  \<^verbatim>\<open>String(v)\<close>, as a template literal, string concatenation and \<^verbatim>\<open>parseFloat\<close> apply it.
  An array is joined with commas, \<^verbatim>\<open>undefined\<close> and \<^verbatim>\<open>null\<close> elements giving the empty string.
  A plain object gives \<^verbatim>\<open>[object Object]\<close>, unless it has an own property \<^verbatim>\<open>toString\<close>: that
  shadows the inherited method and is not callable, and the conversion raises a TypeError.
\<close>

fun to_string :: "jsval \<Rightarrow> error + string"
  and join_strings :: "jsval list \<Rightarrow> error + string" where
  "to_string Undefined = Inr ''undefined''"
| "to_string Null = Inr ''null''"
| "to_string (Bool b) = Inr (if b then ''true'' else ''false'')"
| "to_string (Num n) = Inr (number_to_string n)"
| "to_string (Str s) = Inr s"
| "to_string (Arr xs) = join_strings xs"
| "to_string (Obj kvs) =
    (if map_of kvs ''toString'' \<noteq> None then Inl TypeError else Inr ''[object Object]'')"
| "join_strings [] = Inr []"
| "join_strings (x # xs) =
    (case (if x = Undefined \<or> x = Null then Inr [] else to_string x) of
       Inl e \<Rightarrow> Inl e
     | Inr s \<Rightarrow>
         if xs = [] then Inr s
         else (case join_strings xs of Inl e \<Rightarrow> Inl e | Inr t \<Rightarrow> Inr (s @ '','' @ t)))"

text \<open>Truthiness, as \<^verbatim>\<open>!\<close>, \<^verbatim>\<open>||\<close>, \<^verbatim>\<open>&&\<close> and \<^verbatim>\<open>if\<close> test it.\<close>

fun truthy :: "jsval \<Rightarrow> bool" where
  "truthy Undefined = False"
| "truthy Null = False"
| "truthy (Bool b) = b"
| "truthy (Num n) = (n \<noteq> NaN \<and> n \<noteq> Fin 0)"
| "truthy (Str s) = (s \<noteq> [])"
| "truthy (Arr _) = True"
| "truthy (Obj _) = True"

definition nullish :: "jsval \<Rightarrow> bool" where
  "nullish v = (v = Undefined \<or> v = Null)"

text \<open>
  \<^verbatim>\<open>v.name\<close> for the data field names the pixel reads (\<^verbatim>\<open>title\<close>, \<^verbatim>\<open>sku\<close>, \<^verbatim>\<open>price\<close>, ...);
  none of them is a property of a built-in prototype, so on a primitive or an array the
  result is \<^verbatim>\<open>undefined\<close>. Reading a property of \<^verbatim>\<open>undefined\<close> or \<^verbatim>\<open>null\<close> raises.
\<close>

definition get_prop :: "jsval \<Rightarrow> string \<Rightarrow> error + jsval" where
  "get_prop v name = (case v of
      Undefined \<Rightarrow> Inl TypeError
    | Null \<Rightarrow> Inl TypeError
    | Obj kvs \<Rightarrow> Inr (case map_of kvs name of Some x \<Rightarrow> x | None \<Rightarrow> Undefined)
    | _ \<Rightarrow> Inr Undefined)"

text \<open>\<^verbatim>\<open>v[i]\<close> for an index \<open>i\<close>: an element of an array, a code unit of a string, the
  property named by the digits of \<open>i\<close> of an object.\<close>

definition get_index :: "jsval \<Rightarrow> nat \<Rightarrow> error + jsval" where
  "get_index v i = (case v of
      Undefined \<Rightarrow> Inl TypeError
    | Null \<Rightarrow> Inl TypeError
    | Arr xs \<Rightarrow> Inr (if i < length xs then xs ! i else Undefined)
    | Str s \<Rightarrow> Inr (if i < length s then Str [s ! i] else Undefined)
    | Obj kvs \<Rightarrow> Inr (case map_of kvs (nat_digits i) of Some x \<Rightarrow> x | None \<Rightarrow> Undefined)
    | _ \<Rightarrow> Inr Undefined)"

text \<open>The operand conversion of \<^verbatim>\<open>*\<close>. An array or object is converted through its string.\<close>

definition to_number :: "jsval \<Rightarrow> error + jsnum" where
  "to_number v = (case v of
      Undefined \<Rightarrow> Inr NaN
    | Null \<Rightarrow> Inr (Fin 0)
    | Bool b \<Rightarrow> Inr (Fin (if b then 1 else 0))
    | Num n \<Rightarrow> Inr n
    | Str s \<Rightarrow> Inr (string_to_number s)
    | _ \<Rightarrow> bindE (to_string v) (\<lambda>s. Inr (string_to_number s)))"

definition js_mul :: "jsval \<Rightarrow> jsval \<Rightarrow> error + jsnum" where
  "js_mul a b = bindE (to_number a) (\<lambda>x. bindE (to_number b) (\<lambda>y. Inr (num_mul x y)))"

text \<open>\<^verbatim>\<open>parseFloat(v)\<close> converts its argument to a string and reads a number from it. The
  string of a number reads back as that number, so a number is returned as it is.\<close>

definition parseFloat :: "jsval \<Rightarrow> error + jsnum" where
  "parseFloat v = (case v of
      Num n \<Rightarrow> Inr n
    | _ \<Rightarrow> bindE (to_string v) (\<lambda>s. Inr (parse_float s)))"

definition js_or :: "jsval \<Rightarrow> jsval \<Rightarrow> jsval" where
  "js_or a b = (if truthy a then a else b)"

section \<open>The item formatter\<close>

subsection \<open>Configuration\<close>

definition CURRENCY :: string where
  "CURRENCY = ''EUR''"

definition DEBUG_MODE :: bool where
  "DEBUG_MODE = False"

definition FALLBACK_BRAND :: string where
  "FALLBACK_BRAND = ''Brand Name''"

subsection \<open>cleanProductName\<close>

text \<open>
  \<^verbatim>\<open>if (!variantTitle || !productTitle) return productTitle;\<close>
  \<^verbatim>\<open>const suffix = ' - ' + variantTitle;\<close>
  \<^verbatim>\<open>if (productTitle.endsWith(suffix)) return productTitle.slice(0, -suffix.length);\<close>
  \<^verbatim>\<open>return productTitle;\<close>

  Only a string has the method \<^verbatim>\<open>endsWith\<close>: on any other truthy product title the call
  raises.
\<close>

definition cleanProductName :: "jsval \<Rightarrow> jsval \<Rightarrow> error + jsval" where
  "cleanProductName productTitle variantTitle =
    (if \<not> truthy variantTitle \<or> \<not> truthy productTitle then Inr productTitle
     else
       bindE (to_string variantTitle) (\<lambda>vt.
         let suffix = '' - '' @ vt
         in case productTitle of
              Str p \<Rightarrow> Inr (Str (if ends_with p suffix then slice_off p (length suffix) else p))
            | _ \<Rightarrow> Inl TypeError))"

subsection \<open>createItemId\<close>

text \<open>
  \<^verbatim>\<open>if (variant.sku && variant.sku.trim() !== '') return `SKU_${variant.sku}`;\<close>
  \<^verbatim>\<open>return `shopify_DE_${product.id}_${variant.id}`;\<close>

  Only a string has the method \<^verbatim>\<open>trim\<close>.
\<close>

definition createItemId :: "jsval \<Rightarrow> jsval \<Rightarrow> error + jsval" where
  "createItemId product variant =
    bindE (get_prop variant ''sku'') (\<lambda>sku.
    bindE (if truthy sku
           then (case sku of Str s \<Rightarrow> Inr (trim s \<noteq> []) | _ \<Rightarrow> Inl TypeError)
           else Inr False) (\<lambda>use_sku.
      if use_sku then bindE (to_string sku) (\<lambda>s. Inr (Str (''SKU_'' @ s)))
      else
        bindE (get_prop product ''id'') (\<lambda>pid.
        bindE (to_string pid) (\<lambda>ps.
        bindE (get_prop variant ''id'') (\<lambda>vid.
        bindE (to_string vid) (\<lambda>vs.
          Inr (Str (''shopify_DE_'' @ ps @ ''_'' @ vs))))))))"

subsection \<open>formatItem\<close>

text \<open>An item under construction is the list of its properties.\<close>

type_synonym item = "(string \<times> jsval) list"

text \<open>The object literal of lines 85 to 93.\<close>

definition base_item :: "jsval \<Rightarrow> jsval \<Rightarrow> jsval \<Rightarrow> error + item" where
  "base_item product variant quantity =
    bindE (createItemId product variant) (\<lambda>item_id.
    bindE (get_prop product ''title'') (\<lambda>ptitle.
    bindE (get_prop variant ''title'') (\<lambda>vtitle.
    bindE (cleanProductName ptitle vtitle) (\<lambda>item_name.
    bindE (get_prop product ''vendor'') (\<lambda>vendor.
    bindE (get_prop product ''type'') (\<lambda>ptype.
    bindE (get_prop variant ''price'') (\<lambda>price.
    bindE (get_prop price ''amount'') (\<lambda>amount.
    bindE (parseFloat amount) (\<lambda>price_num.
      Inr [(''item_id'', item_id),
           (''item_name'', item_name),
           (''item_variant'', vtitle),
           (''item_brand'', js_or vendor (Str FALLBACK_BRAND)),
           (''item_category'', js_or ptype (Str [])),
           (''price'', Num price_num),
           (''quantity'', quantity)])))))))))"

text \<open>The expression \<^verbatim>\<open>product.collections?.[i]?.title\<close>.\<close>

definition collection_title :: "jsval \<Rightarrow> nat \<Rightarrow> error + jsval" where
  "collection_title product i =
    bindE (get_prop product ''collections'') (\<lambda>cs.
      if nullish cs then Inr Undefined
      else bindE (get_index cs i) (\<lambda>c.
        if nullish c then Inr Undefined else get_prop c ''title''))"

text \<open>One of the four statements
  \<^verbatim>\<open>if (product.collections?.[i]?.title) { item.item_categoryN = product.collections[i].title; }\<close>\<close>

definition add_category :: "jsval \<Rightarrow> nat \<Rightarrow> string \<Rightarrow> item \<Rightarrow> error + item" where
  "add_category product i key item =
    bindE (collection_title product i) (\<lambda>t.
      Inr (if truthy t then AList.update key t item else item))"

definition add_categories :: "jsval \<Rightarrow> item \<Rightarrow> error + item" where
  "add_categories product item =
    bindE (add_category product 0 ''item_category2'' item) (\<lambda>item.
    bindE (add_category product 1 ''item_category3'' item) (\<lambda>item.
    bindE (add_category product 2 ''item_category4'' item) (\<lambda>item.
    add_category product 3 ''item_category5'' item)))"

text \<open>The expression \<^verbatim>\<open>lineItem?.discountAllocations?.[0]\<close>.\<close>

definition first_discount_allocation :: "jsval \<Rightarrow> error + jsval" where
  "first_discount_allocation lineItem =
    (if nullish lineItem then Inr Undefined
     else bindE (get_prop lineItem ''discountAllocations'') (\<lambda>das.
       if nullish das then Inr Undefined else get_index das 0))"

text \<open>Lines 112 to 124: the discount and the coupon of the first discount allocation.\<close>

definition add_discount :: "jsval \<Rightarrow> item \<Rightarrow> error + item" where
  "add_discount lineItem item =
    bindE (first_discount_allocation lineItem) (\<lambda>discountAllocation.
      if \<not> truthy discountAllocation then Inr item
      else
        bindE (get_prop discountAllocation ''amount'') (\<lambda>am.
        bindE (if nullish am then Inr Undefined else get_prop am ''amount'') (\<lambda>amount.
        bindE (if truthy amount
               then bindE (parseFloat amount) (\<lambda>d. Inr (AList.update ''discount'' (Num d) item))
               else Inr item) (\<lambda>item.
        bindE (get_prop discountAllocation ''discountApplication'') (\<lambda>app.
        bindE (if nullish app then Inr Undefined else get_prop app ''title'') (\<lambda>title.
          Inr (if truthy title then AList.update ''coupon'' title item else item)))))))"

text \<open>
  \<^verbatim>\<open>function formatItem(variant, quantity = 1, lineItem = null)\<close>: a parameter that is
  \<^verbatim>\<open>undefined\<close> takes its default. \<^verbatim>\<open>const product = variant.product || variant;\<close>
\<close>

definition formatItem :: "jsval \<Rightarrow> jsval \<Rightarrow> jsval \<Rightarrow> error + jsval" where
  "formatItem variant quantity_arg lineItem_arg =
    (let quantity = (if quantity_arg = Undefined then Num (Fin 1) else quantity_arg);
         lineItem = (if lineItem_arg = Undefined then Null else lineItem_arg)
     in bindE (get_prop variant ''product'') (\<lambda>p.
          let product = js_or p variant
          in bindE (base_item product variant quantity) (\<lambda>item.
             bindE (add_categories product item) (\<lambda>item.
             bindE (add_discount lineItem item) (\<lambda>item.
               Inr (Obj item))))))"

section \<open>The collection formatter\<close>

text \<open>\<^verbatim>\<open>Array.prototype.map\<close> with a callback that may raise: the first fault ends the map.\<close>

primrec map_e :: "('a \<Rightarrow> error + 'b) \<Rightarrow> 'a list \<Rightarrow> error + 'b list" where
  "map_e f [] = Inr []"
| "map_e f (x # xs) = bindE (f x) (\<lambda>y. bindE (map_e f xs) (\<lambda>ys. Inr (y # ys)))"

text \<open>The callback of \<^verbatim>\<open>formatItems\<close>:
  \<^verbatim>\<open>const variant = lineItem.merchandise || lineItem.variant;\<close>
  \<^verbatim>\<open>return formatItem(variant, lineItem.quantity, lineItem);\<close>\<close>

definition format_line :: "jsval \<Rightarrow> error + jsval" where
  "format_line lineItem =
    bindE (get_prop lineItem ''merchandise'') (\<lambda>m.
    bindE (if truthy m then Inr m else get_prop lineItem ''variant'') (\<lambda>variant.
    bindE (get_prop lineItem ''quantity'') (\<lambda>quantity.
      formatItem variant quantity lineItem)))"

definition is_array :: "jsval \<Rightarrow> bool" where
  "is_array v = (case v of Arr _ \<Rightarrow> True | _ \<Rightarrow> False)"

text \<open>\<^verbatim>\<open>if (!lineItems || !Array.isArray(lineItems)) return [];\<close>\<close>

definition formatItems :: "jsval \<Rightarrow> error + jsval list" where
  "formatItems lineItems =
    (if \<not> truthy lineItems \<or> \<not> is_array lineItems then Inr []
     else case lineItems of Arr ls \<Rightarrow> map_e format_line ls | _ \<Rightarrow> Inr [])"

section \<open>The dispatcher\<close>

text \<open>
  The part of the browser the pixel acts on: \<^verbatim>\<open>window.gtag\<close> when it is a function
  (\<open>None\<close> when it is not), the calls made to it so far, and the console. The sink is
  any function of the earlier calls and the present one that either returns (\<open>None\<close>) or
  throws a value.
\<close>

type_synonym sink = "(string \<times> jsval) list \<Rightarrow> string \<Rightarrow> jsval \<Rightarrow> jsval option"

datatype console_entry = ConsoleLog string jsval | ConsoleError string error

record world =
  gtag :: "sink option"
  sink_calls :: "(string \<times> jsval) list"
  console :: "console_entry list"

text \<open>The body of the \<^verbatim>\<open>try\<close> block of \<^verbatim>\<open>sendEvent\<close>.\<close>

definition sendEvent_try :: "string \<Rightarrow> jsval \<Rightarrow> world \<Rightarrow> (error + unit) \<times> world" where
  "sendEvent_try eventName params w =
    (case gtag w of
       None \<Rightarrow>
         (Inr (), if DEBUG_MODE
                  then w\<lparr>console := console w @ [ConsoleLog (''[Web Pixel] '' @ eventName) params]\<rparr>
                  else w)
     | Some f \<Rightarrow>
         (let w1 = w\<lparr>sink_calls := sink_calls w @ [(eventName, params)]\<rparr>
          in case f (sink_calls w) eventName params of
               Some e \<Rightarrow> (Inl (Thrown e), w1)
             | None \<Rightarrow>
                 (Inr (), if DEBUG_MODE
                          then w1\<lparr>console := console w1 @ [ConsoleLog (''[Web Pixel] '' @ eventName) params]\<rparr>
                          else w1)))"

text \<open>\<^verbatim>\<open>try { ... } catch (error) { console.error(`[Web Pixel] ${eventName}`, error); }\<close>\<close>

definition sendEvent :: "string \<Rightarrow> jsval \<Rightarrow> world \<Rightarrow> (error + unit) \<times> world" where
  "sendEvent eventName params w =
    (case sendEvent_try eventName params w of
       (Inl e, w1) \<Rightarrow>
         (Inr (), w1\<lparr>console := console w1 @ [ConsoleError (''[Web Pixel] '' @ eventName) e]\<rparr>)
     | (Inr u, w1) \<Rightarrow> (Inr u, w1))"

section \<open>The event mapper\<close>

subsection \<open>cart\_viewed\<close>

text \<open>\<^verbatim>\<open>items.reduce((sum, item) => sum + (item.price * item.quantity), 0)\<close>, with
  \<open>acc\<close> for the source's \<^verbatim>\<open>sum\<close>. The product is a number, and so is the sum at every
  step: \<^verbatim>\<open>+\<close> is the addition of numbers here.\<close>

primrec reduce_value :: "jsval list \<Rightarrow> jsnum \<Rightarrow> error + jsnum" where
  "reduce_value [] acc = Inr acc"
| "reduce_value (item # items) acc =
    bindE (get_prop item ''price'') (\<lambda>p.
    bindE (get_prop item ''quantity'') (\<lambda>q.
    bindE (js_mul p q) (\<lambda>m.
      reduce_value items (num_add acc m))))"

text \<open>The payload the listener sends; \<open>None\<close> when it returns before sending.\<close>

definition cart_viewed_payload :: "jsval \<Rightarrow> error + jsval option" where
  "cart_viewed_payload event =
    bindE (get_prop event ''data'') (\<lambda>data.
    bindE (get_prop data ''cart'') (\<lambda>cart.
      if \<not> truthy cart then Inr None
      else
        bindE (get_prop cart ''lines'') (\<lambda>lines.
          if \<not> truthy lines then Inr None
          else
            bindE (formatItems lines) (\<lambda>items.
            bindE (reduce_value items (Fin 0)) (\<lambda>value.
              Inr (Some (Obj [(''currency'', Str CURRENCY),
                              (''value'', Num value),
                              (''items'', Arr items)])))))))"

definition cart_viewed :: "jsval \<Rightarrow> world \<Rightarrow> (error + unit) \<times> world" where
  "cart_viewed event w =
    (case cart_viewed_payload event of
       Inl e \<Rightarrow> (Inl e, w)
     | Inr None \<Rightarrow> (Inr (), w)
     | Inr (Some payload) \<Rightarrow> sendEvent ''view_cart'' payload w)"

subsection \<open>checkout\_completed\<close>

text \<open>The expression \<^verbatim>\<open>checkout.discountApplications?.[0]?.title\<close>.\<close>

definition checkout_coupon :: "jsval \<Rightarrow> error + jsval" where
  "checkout_coupon checkout =
    bindE (get_prop checkout ''discountApplications'') (\<lambda>das.
      if nullish das then Inr Undefined
      else bindE (get_index das 0) (\<lambda>da.
        if nullish da then Inr Undefined else get_prop da ''title''))"

text \<open>The method call \<^verbatim>\<open>v.toString()\<close>.\<close>

definition call_toString :: "jsval \<Rightarrow> error + string" where
  "call_toString v = (if nullish v then Inl TypeError else to_string v)"

definition checkout_completed_payload :: "jsval \<Rightarrow> error + jsval" where
  "checkout_completed_payload event =
    bindE (get_prop event ''data'') (\<lambda>data.
    bindE (get_prop data ''checkout'') (\<lambda>checkout.
    bindE (get_prop checkout ''order'') (\<lambda>order.
    bindE (get_prop checkout ''lineItems'') (\<lambda>lineItems.
    bindE (formatItems lineItems) (\<lambda>items.
    bindE (get_prop order ''id'') (\<lambda>order_id.
    bindE (call_toString order_id) (\<lambda>transaction_id.
    bindE (get_prop checkout ''currencyCode'') (\<lambda>currencyCode.
    bindE (get_prop checkout ''totalPrice'') (\<lambda>totalPrice.
    bindE (get_prop totalPrice ''amount'') (\<lambda>total.
    bindE (parseFloat total) (\<lambda>value.
    bindE (get_prop checkout ''totalTax'') (\<lambda>totalTax.
    bindE (if nullish totalTax then Inr Undefined else get_prop totalTax ''amount'') (\<lambda>tax_amount.
    bindE (parseFloat (js_or tax_amount (Num (Fin 0)))) (\<lambda>tax.
    bindE (get_prop checkout ''shippingLine'') (\<lambda>shippingLine.
    bindE (if nullish shippingLine then Inr Undefined
           else bindE (get_prop shippingLine ''price'') (\<lambda>price. get_prop price ''amount''))
          (\<lambda>shipping_amount.
    bindE (parseFloat (js_or shipping_amount (Num (Fin 0)))) (\<lambda>shipping.
    bindE (checkout_coupon checkout) (\<lambda>coupon.
      let eventData =
            [(''transaction_id'', Str transaction_id),
             (''currency'', js_or currencyCode (Str CURRENCY)),
             (''value'', Num value),
             (''tax'', Num tax),
             (''shipping'', Num shipping),
             (''items'', Arr items)]
      in Inr (Obj (if truthy coupon then AList.update ''coupon'' coupon eventData
                   else eventData))))))))))))))))))))"

definition checkout_completed :: "jsval \<Rightarrow> world \<Rightarrow> (error + unit) \<times> world" where
  "checkout_completed event w =
    (case checkout_completed_payload event of
       Inl e \<Rightarrow> (Inl e, w)
     | Inr payload \<Rightarrow> sendEvent ''purchase'' payload w)"

section \<open>Reading the results\<close>

text \<open>An own property of an object, \<open>None\<close> when the object does not have it: a field
  that is omitted is distinguished from one that is \<^verbatim>\<open>null\<close> or \<^verbatim>\<open>undefined\<close>.\<close>

definition field :: "jsval \<Rightarrow> string \<Rightarrow> jsval option" where
  "field v name = (case v of Obj kvs \<Rightarrow> map_of kvs name | _ \<Rightarrow> None)"

definition own_keys :: "jsval \<Rightarrow> string list" where
  "own_keys v = (case v of Obj kvs \<Rightarrow> map fst kvs | _ \<Rightarrow> [])"

text \<open>The value \<^verbatim>\<open>v?.name\<close> of a data field, \<^verbatim>\<open>undefined\<close> when \<open>v\<close> is
  \<^verbatim>\<open>undefined\<close> or \<^verbatim>\<open>null\<close>.\<close>

definition prop_of :: "jsval \<Rightarrow> string \<Rightarrow> jsval" where
  "prop_of v name = (case get_prop v name of Inr x \<Rightarrow> x | Inl _ \<Rightarrow> Undefined)"

text \<open>The category that the collection at position \<open>i\<close> of a collections list gives:
  its title when there is such a collection and its title is truthy.\<close>

definition collection_category :: "jsval list \<Rightarrow> nat \<Rightarrow> jsval option" where
  "collection_category cs i =
    (if i < length cs \<and> truthy (prop_of (cs ! i) ''title'')
     then Some (prop_of (cs ! i) ''title'') else None)"

text \<open>Price times quantity of one formatted item.\<close>

definition line_total :: "jsval \<Rightarrow> error + jsnum" where
  "line_total item =
    bindE (get_prop item ''price'') (\<lambda>p.
    bindE (get_prop item ''quantity'') (\<lambda>q. js_mul p q))"

text \<open>The names of the four conditional category fields, by position of the collection.\<close>

definition category_keys :: "string list" where
  "category_keys = [''item_category2'', ''item_category3'', ''item_category4'', ''item_category5'']"

text \<open>Setting a property when there is a value for it, and leaving the item as it is
  otherwise.\<close>

definition put :: "string \<Rightarrow> jsval option \<Rightarrow> item \<Rightarrow> item" where
  "put key v item = (case v of Some x \<Rightarrow> AList.update key x item | None \<Rightarrow> item)"

text \<open>The names of the fields every item has.\<close>

definition base_keys :: "string list" where
  "base_keys = [''item_id'', ''item_name'', ''item_variant'', ''item_brand'', ''item_category'',
     ''price'', ''quantity'']"

section \<open>Well-formed input\<close>

text \<open>
  The shape the data model gives the pixel's input: identifiers and amounts are strings
  or numbers, titles and the SKU are strings or absent, a variant has a price, and a
  line item wraps a variant. On such input the formatter raises nothing.
\<close>

definition primitive :: "jsval \<Rightarrow> bool" where
  "primitive v = (case v of Arr _ \<Rightarrow> False | Obj _ \<Rightarrow> False | _ \<Rightarrow> True)"

definition opt_string :: "jsval \<Rightarrow> bool" where
  "opt_string v = (case v of Undefined \<Rightarrow> True | Null \<Rightarrow> True | Str _ \<Rightarrow> True | _ \<Rightarrow> False)"

definition well_formed_variant :: "jsval \<Rightarrow> bool" where
  "well_formed_variant v =
    (opt_string (prop_of v ''sku'') \<and>
     opt_string (prop_of v ''title'') \<and>
     primitive (prop_of v ''id'') \<and>
     \<not> nullish (prop_of v ''price'') \<and>
     primitive (prop_of (prop_of v ''price'') ''amount'') \<and>
     (if truthy (prop_of v ''product'')
      then opt_string (prop_of (prop_of v ''product'') ''title'') \<and>
           primitive (prop_of (prop_of v ''product'') ''id'')
      else True))"

text \<open>The first discount allocation of a line item, \<^verbatim>\<open>undefined\<close> when there is none.\<close>

definition first_allocation_of :: "jsval \<Rightarrow> jsval" where
  "first_allocation_of lineItem =
    (case first_discount_allocation lineItem of Inr d \<Rightarrow> d | Inl _ \<Rightarrow> Undefined)"

definition discount_ok :: "jsval \<Rightarrow> bool" where
  "discount_ok lineItem =
    primitive (prop_of (prop_of (first_allocation_of lineItem) ''amount'') ''amount'')"

definition well_formed_line :: "jsval \<Rightarrow> bool" where
  "well_formed_line lineItem =
    (\<not> nullish lineItem \<and>
     well_formed_variant (js_or (prop_of lineItem ''merchandise'') (prop_of lineItem ''variant'')) \<and>
     discount_ok lineItem)"

text \<open>A checkout: an order with an id, a total price, and where a shipping line is
  present, its price.\<close>

definition well_formed_checkout :: "jsval \<Rightarrow> bool" where
  "well_formed_checkout checkout =
    (\<not> nullish (prop_of (prop_of checkout ''order'') ''id'') \<and>
     primitive (prop_of (prop_of checkout ''order'') ''id'') \<and>
     (case prop_of checkout ''lineItems'' of Arr ls \<Rightarrow> list_all well_formed_line ls | _ \<Rightarrow> True) \<and>
     \<not> nullish (prop_of checkout ''totalPrice'') \<and>
     primitive (prop_of (prop_of checkout ''totalPrice'') ''amount'') \<and>
     primitive (prop_of (prop_of checkout ''totalTax'') ''amount'') \<and>
     (if nullish (prop_of checkout ''shippingLine'') then True
      else \<not> nullish (prop_of (prop_of checkout ''shippingLine'') ''price'') \<and>
           primitive (prop_of (prop_of (prop_of checkout ''shippingLine'') ''price'') ''amount'')))"

section \<open>Example data\<close>

definition shirt_product :: jsval where
  "shirt_product = Obj
    [(''id'', Str ''p1''),
     (''title'', Str ''Shirt - Large''),
     (''vendor'', Str ''Acme''),
     (''type'', Str ''Shirts''),
     (''collections'', Arr [Obj [(''title'', Str ''Summer'')], Obj [(''title'', Str ''Sale'')]])]"

definition shirt_variant :: jsval where
  "shirt_variant = Obj
    [(''id'', Str ''v1''),
     (''title'', Str ''Large''),
     (''sku'', Str []),
     (''price'', Obj [(''amount'', Str ''10.00''), (''currencyCode'', Str ''EUR'')]),
     (''product'', shirt_product)]"

text \<open>A variant that carries no product.\<close>

definition mug_variant :: jsval where
  "mug_variant = Obj
    [(''id'', Num (Fin 42)),
     (''title'', Str ''Mug''),
     (''type'', Str ''Kitchen''),
     (''price'', Obj [(''amount'', Num (Fin (11 / 2))), (''currencyCode'', Str ''EUR'')])]"

text \<open>A product whose first collection has an empty title.\<close>

definition untitled_product :: jsval where
  "untitled_product = Obj
    [(''id'', Str ''p2''),
     (''title'', Str ''Cap''),
     (''vendor'', Str ''Acme''),
     (''type'', Str ''Hats''),
     (''collections'', Arr [Obj [(''title'', Str [])], Obj [(''title'', Str ''Sale'')]])]"

definition cap_variant :: jsval where
  "cap_variant = Obj
    [(''id'', Str ''v2''),
     (''title'', Str ''One size''),
     (''sku'', Str ''CAP-1''),
     (''price'', Obj [(''amount'', Str ''12.50''), (''currencyCode'', Str ''EUR'')]),
     (''product'', untitled_product)]"

text \<open>A cart line with two discount allocations, and one whose only allocation has the
  amount 0.\<close>

definition discount_line :: jsval where
  "discount_line = Obj
    [(''merchandise'', shirt_variant),
     (''quantity'', Num (Fin 2)),
     (''discountAllocations'', Arr
        [Obj [(''amount'', Obj [(''amount'', Str ''2.50''), (''currencyCode'', Str ''EUR'')]),
              (''discountApplication'', Obj [(''title'', Str ''SAVE10'')])],
         Obj [(''amount'', Obj [(''amount'', Str ''1.00''), (''currencyCode'', Str ''EUR'')]),
              (''discountApplication'', Obj [(''title'', Str ''OTHER'')])]])]"

definition zero_discount_line :: jsval where
  "zero_discount_line = Obj
    [(''merchandise'', shirt_variant),
     (''quantity'', Num (Fin 2)),
     (''discountAllocations'', Arr
        [Obj [(''amount'', Obj [(''amount'', Num (Fin 0)), (''currencyCode'', Str ''EUR'')]),
              (''discountApplication'', Obj [(''title'', Str ''FREESHIP'')])]])]"

text \<open>A checkout line: the variant is under \<open>variant\<close>.\<close>

definition mug_line :: jsval where
  "mug_line = Obj [(''variant'', mug_variant), (''quantity'', Num (Fin 1))]"

text \<open>A cart with the two lines: 10.00 twice and 5.50 once.\<close>

definition cart_event :: jsval where
  "cart_event = Obj [(''data'', Obj [(''cart'', Obj [(''lines'', Arr [discount_line, mug_line])])])]"

text \<open>A cart with one line, three times a price of 0.1: a decimal that no double holds.\<close>

definition sticker_variant :: jsval where
  "sticker_variant = Obj
    [(''id'', Num (Fin 7)),
     (''title'', Str ''Sticker''),
     (''price'', Obj [(''amount'', Str ''0.1''), (''currencyCode'', Str ''EUR'')])]"

definition sticker_line :: jsval where
  "sticker_line = Obj [(''merchandise'', sticker_variant), (''quantity'', Num (Fin 3))]"

definition sticker_event :: jsval where
  "sticker_event = Obj [(''data'', Obj [(''cart'', Obj [(''lines'', Arr [sticker_line])])])]"

text \<open>A browser whose sink accepts every event, and one whose sink throws on every
  call.\<close>

definition quiet_world :: world where
  "quiet_world = \<lparr>gtag = Some (\<lambda>calls eventName params. None), sink_calls = [], console = []\<rparr>"

definition faulty_world :: world where
  "faulty_world =
    \<lparr>gtag = Some (\<lambda>calls eventName params. Some (Str ''sink down'')), sink_calls = [], console = []\<rparr>"

text \<open>A completed checkout with a numeric order id, one line, and neither tax nor
  shipping line.\<close>

definition purchase_event :: jsval where
  "purchase_event = Obj [(''data'', Obj [(''checkout'', Obj
    [(''order'', Obj [(''id'', Num (Fin 1001))]),
     (''lineItems'', Arr [mug_line]),
     (''totalPrice'', Obj [(''amount'', Str ''5.50''), (''currencyCode'', Str ''EUR'')])])])]"

section \<open>Properties\<close>

subsection \<open>Auxiliary facts\<close>

declare nat_digits.simps [simp del] bit_length.simps [simp del] shortest_digits.simps [simp del]

lemma bindE_Inl [simp]: "bindE (Inl e) f = Inl e"
  by (simp add: bindE_def)

lemma bindE_Inr [simp]: "bindE (Inr x) f = f x"
  by (simp add: bindE_def)

lemma bindE_eq_Inr: "bindE m f = Inr y \<longleftrightarrow> (\<exists>x. m = Inr x \<and> f x = Inr y)"
  by (cases m) simp_all

lemma ends_with_iff: "ends_with s t \<longleftrightarrow> (\<exists>a. s = a @ t)"
proof
  assume "ends_with s t"
  then have "s = take (length s - length t) s @ t"
    by (metis append_take_drop_id ends_with_def)
  then show "\<exists>a. s = a @ t" ..
next
  assume "\<exists>a. s = a @ t"
  then show "ends_with s t"
    by (auto simp: ends_with_def)
qed

lemma slice_off_append: "slice_off (a @ t) (length t) = a"
  by (simp add: slice_off_def)

lemmas string_eval = ends_with_def slice_off_def trim_def is_ws_def starts_with_def

lemma floor_rat_numeral: "\<lfloor>(numeral a :: rat) / numeral b\<rfloor> = numeral a div numeral b"
  using floor_divide_of_int_eq [of "numeral a" "numeral b", where ?'a = rat] by simp

lemmas round_eval = floor_rat_numeral round_double_def in_range_def round_to_ulp_def
  round_half_even_def nearest_even_def binary_exponent_def adjust_exponent_def pow2_def
  bit_length.simps

lemmas number_string_eval = number_to_string_def positive_to_string_def digits_of_def
  format_digits_def strip_zeros_def shortest_digits.simps pick_digits_def round_trips_def
  decimal_exponent_def adjust_decimal_def pow10_def nat_digits.simps digit_char_def round_eval

lemma small_numbers_as_strings:
  "number_to_string (Fin 7) = ''7''"
  "number_to_string (Fin 42) = ''42''"
  "number_to_string (Fin 1001) = ''1001''"
  by (simp_all add: number_string_eval)

text \<open>Numbers that are doubles are left as they are by rounding.\<close>

lemma exact_doubles:
  "round_double 1 = Fin 1"
  "round_double 10 = Fin 10"
  "round_double 20 = Fin 20"
  "round_double (5 / 2) = Fin (5 / 2)"
  "round_double (11 / 2) = Fin (11 / 2)"
  "round_double (25 / 2) = Fin (25 / 2)"
  "round_double (51 / 2) = Fin (51 / 2)"
  by (simp_all add: round_eval)

text \<open>
  Rounding is to a nearest double: the exponent brackets the number, and the result is
  a multiple of the unit in the last place, at most half a unit away.
\<close>

lemma bit_length_bounds:
  "0 < n \<Longrightarrow> 2 ^ (bit_length n - 1) \<le> n \<and> n < 2 ^ bit_length n"
proof (induction n rule: bit_length.induct)
  case (1 n)
  show ?case
  proof (cases "n div 2 = 0")
    case True
    with "1.prems" have "n = 1" by presburger
    then show ?thesis
      by (simp add: bit_length.simps)
  next
    case False
    then have pos: "0 < n div 2" by simp
    from "1.prems" have b: "bit_length n = Suc (bit_length (n div 2))"
      by (subst bit_length.simps) simp
    from "1.IH" "1.prems" pos have ih: "2 ^ (bit_length (n div 2) - 1) \<le> n div 2"
      "n div 2 < 2 ^ bit_length (n div 2)"
      by simp_all
    from pos have "0 < bit_length (n div 2)"
      by (subst bit_length.simps) simp
    then have "(2::nat) ^ bit_length (n div 2) = 2 * 2 ^ (bit_length (n div 2) - 1)"
      by (cases "bit_length (n div 2)") simp_all
    with ih(1) have lo: "2 ^ bit_length (n div 2) \<le> n"
      by presburger
    from ih(2) have "n < 2 * 2 ^ bit_length (n div 2)"
      by presburger
    with lo b show ?thesis by simp
  qed
qed

lemma pow2_pos: "0 < pow2 e"
  by (simp add: pow2_def)

lemma pow2_Suc: "pow2 (e + 1) = 2 * pow2 e"
proof (cases "0 \<le> e")
  case True
  then show ?thesis by (simp add: pow2_def nat_add_distrib)
next
  case False
  then have "nat (- e) = Suc (nat (- (e + 1)))" by simp
  with False show ?thesis
    by (auto simp: pow2_def)
qed

lemma pow2_of_nat: "pow2 (int k) = 2 ^ k"
  by (simp add: pow2_def)

lemma pow2_neg: "pow2 (- int k) = 1 / 2 ^ k"
  by (cases k) (simp_all add: pow2_def nat_add_distrib)

text \<open>The binary exponent brackets its argument.\<close>

lemma binary_exponent_bounds:
  assumes "0 < a"
  shows "pow2 (binary_exponent a) \<le> a \<and> a < pow2 (binary_exponent a + 1)"
proof (cases "1 \<le> a")
  case True
  let ?n = "nat \<lfloor>a\<rfloor>"
  from True have n: "0 < ?n" by simp
  from bit_length_bounds [OF n] have lo: "2 ^ (bit_length ?n - 1) \<le> ?n"
    and hi: "?n < 2 ^ bit_length ?n" by simp_all
  from n have bl: "0 < bit_length ?n"
    by (subst bit_length.simps) simp
  have e: "binary_exponent a = int (bit_length ?n - 1)"
    using True bl by (simp add: binary_exponent_def)
  have na: "rat_of_nat ?n \<le> a"
    using True by (simp add: of_nat_nat)
  have an: "a < rat_of_nat (?n + 1)"
    using True by (simp add: of_nat_nat) linarith
  from lo have "(2::rat) ^ (bit_length ?n - 1) \<le> rat_of_nat ?n"
    by (metis of_nat_le_iff of_nat_numeral of_nat_power)
  with na have 1: "pow2 (binary_exponent a) \<le> a"
    unfolding e pow2_of_nat by linarith
  from hi have "Suc ?n \<le> 2 ^ bit_length ?n" by (rule Suc_leI)
  then have "rat_of_nat (?n + 1) \<le> 2 ^ bit_length ?n"
    unfolding Suc_eq_plus1
    by (metis of_nat_le_iff of_nat_numeral of_nat_power)
  with an have "a < 2 ^ bit_length ?n" by linarith
  moreover have "binary_exponent a + 1 = int (bit_length ?n)"
    unfolding e using bl by simp
  ultimately have 2: "a < pow2 (binary_exponent a + 1)"
    by (simp add: pow2_of_nat)
  from 1 2 show ?thesis ..
next
  case False
  with assms have a1: "a < 1" "1 < 1 / a" by simp_all
  let ?n = "nat \<lfloor>1 / a\<rfloor>"
  let ?b = "bit_length ?n"
  from a1 have n: "0 < ?n" by simp
  from bit_length_bounds [OF n] have lo: "2 ^ (?b - 1) \<le> ?n"
    and hi: "?n < 2 ^ ?b" by simp_all
  from n have bl: "0 < ?b"
    by (subst bit_length.simps) simp
  have na: "rat_of_nat ?n \<le> 1 / a"
    using a1 assms by (simp add: of_nat_nat)
  have an: "1 / a < rat_of_nat (?n + 1)"
    using a1 assms by (simp add: of_nat_nat) linarith
  from lo have "(2::rat) ^ (?b - 1) \<le> rat_of_nat ?n"
    by (metis of_nat_le_iff of_nat_numeral of_nat_power)
  with na have "(2::rat) ^ (?b - 1) \<le> 1 / a" by linarith
  then have up: "a \<le> 1 / 2 ^ (?b - 1)"
    using assms by (simp add: field_simps)
  from hi have "Suc ?n \<le> 2 ^ ?b" by (rule Suc_leI)
  then have "rat_of_nat (?n + 1) \<le> 2 ^ ?b"
    unfolding Suc_eq_plus1
    by (metis of_nat_le_iff of_nat_numeral of_nat_power)
  with an have "1 / a < 2 ^ ?b" by linarith
  then have down: "1 / 2 ^ ?b < a"
    using assms by (simp add: field_simps)
  have p1: "pow2 (- int ?b) = 1 / 2 ^ ?b"
    by (rule pow2_neg)
  have "- int ?b + 1 = - int (?b - 1)"
    using bl by simp
  then have p2: "pow2 (- int ?b + 1) = 1 / 2 ^ (?b - 1)"
    by (simp only: pow2_neg)
  have e: "binary_exponent a = adjust_exponent a (- int ?b)"
    using False by (simp add: binary_exponent_def)
  show ?thesis
  proof (cases "pow2 (- int ?b + 1) \<le> a")
    case True
    with up p2 have eq: "a = pow2 (- int ?b + 1)" by simp
    have "binary_exponent a = - int ?b + 1"
      using True by (simp add: e adjust_exponent_def)
    moreover have "pow2 (- int ?b + 1) < pow2 (- int ?b + 1 + 1)"
      using pow2_pos [of "- int ?b + 1"] by (simp only: pow2_Suc [of "- int ?b + 1"])
    ultimately show ?thesis
      using eq by simp
  next
    case not: False
    then have "binary_exponent a = - int ?b"
      by (simp add: e adjust_exponent_def)
    with not down p1 show ?thesis by simp
  qed
qed

lemma round_half_even_error: "\<bar>of_int (round_half_even m) - m\<bar> \<le> 1 / 2"
proof -
  have f: "of_int \<lfloor>m\<rfloor> \<le> m" "m < of_int \<lfloor>m\<rfloor> + 1"
    by linarith+
  consider "m - of_int \<lfloor>m\<rfloor> < 1 / 2" | "1 / 2 < m - of_int \<lfloor>m\<rfloor>"
    | "m - of_int \<lfloor>m\<rfloor> = 1 / 2"
    by linarith
  then show ?thesis
  proof cases
    case 1
    then have "round_half_even m = \<lfloor>m\<rfloor>"
      by (simp add: round_half_even_def nearest_even_def)
    with f 1 show ?thesis by linarith
  next
    case 2
    then have "round_half_even m = \<lfloor>m\<rfloor> + 1"
      by (simp add: round_half_even_def nearest_even_def)
    with f 2 show ?thesis by simp
  next
    case 3
    then have "round_half_even m = \<lfloor>m\<rfloor> \<or> round_half_even m = \<lfloor>m\<rfloor> + 1"
      by (simp add: round_half_even_def nearest_even_def)
    with f 3 show ?thesis by (elim disjE) simp_all
  qed
qed

text \<open>Rounding to a multiple of \<open>ulp\<close> moves a number by at most half of \<open>ulp\<close>.\<close>

lemma round_to_ulp_error:
  assumes "0 < ulp"
  shows "\<bar>round_to_ulp a ulp - a\<bar> \<le> ulp / 2"
proof -
  let ?r = "rat_of_int (round_half_even (a / ulp))"
  have "round_to_ulp a ulp - a = (?r - a / ulp) * ulp"
    using assms by (simp add: round_to_ulp_def left_diff_distrib)
  then have "\<bar>round_to_ulp a ulp - a\<bar> = \<bar>?r - a / ulp\<bar> * ulp"
    using assms by (simp only: abs_mult abs_of_pos)
  moreover have "\<bar>?r - a / ulp\<bar> * ulp \<le> 1 / 2 * ulp"
    using assms round_half_even_error [of "a / ulp"] by (intro mult_right_mono) simp_all
  ultimately show ?thesis by simp
qed

text \<open>
  A finite result of rounding is a multiple of the unit in the last place of its
  argument, and at most half a unit away from it.
\<close>

lemma round_double_nearest:
  assumes "round_double q = Fin r" and "q \<noteq> 0"
  shows "\<bar>r - q\<bar> \<le> pow2 (max (binary_exponent \<bar>q\<bar>) (- 1022) - 52) / 2"
    and "\<exists>k. r = of_int k * pow2 (max (binary_exponent \<bar>q\<bar>) (- 1022) - 52)"
proof -
  let ?ulp = "pow2 (max (binary_exponent \<bar>q\<bar>) (- 1022) - 52)"
  let ?m = "round_to_ulp \<bar>q\<bar> ?ulp"
  from assms have r: "r = (if 0 < q then ?m else - ?m)"
    by (auto simp: round_double_def in_range_def split: if_splits)
  have e: "\<bar>?m - \<bar>q\<bar>\<bar> \<le> ?ulp / 2"
    by (rule round_to_ulp_error) (rule pow2_pos)
  show "\<bar>r - q\<bar> \<le> ?ulp / 2"
  proof (cases "0 < q")
    case True
    with e r show ?thesis by simp
  next
    case False
    with assms(2) have "q < 0" by simp
    then have "\<bar>r - q\<bar> = \<bar>?m - \<bar>q\<bar>\<bar>"
      using r by (simp add: abs_if)
    with e show ?thesis by simp
  qed
  show "\<exists>k. r = of_int k * ?ulp"
  proof (cases "0 < q")
    case True
    with r have "r = of_int (round_half_even (\<bar>q\<bar> / ?ulp)) * ?ulp"
      by (simp add: round_to_ulp_def)
    then show ?thesis ..
  next
    case False
    with r have "r = of_int (- round_half_even (\<bar>q\<bar> / ?ulp)) * ?ulp"
      by (simp add: round_to_ulp_def)
    then show ?thesis ..
  qed
qed

lemma trim_Nil [simp]: "trim [] = []"
  by (simp add: trim_def)

subsection \<open>Name cleaning\<close>

lemma cleanProductName_strings:
  "cleanProductName (Str p) (Str v) =
     Inr (Str (if v \<noteq> [] \<and> p \<noteq> [] \<and> ends_with p ('' - '' @ v)
               then slice_off p (length ('' - '' @ v)) else p))"
  by (simp add: cleanProductName_def)

text \<open>
  C3, as the code has it. For a variant title that is not empty, a product title of
  the form \<open>stem @ '' - '' @ v\<close> is cut back to \<open>stem\<close> (one suffix is removed, whatever
  \<open>stem\<close> ends with), and a product title that does not end with \<open>'' - '' @ v\<close> is returned
  unchanged. For the empty variant title the product title is returned unchanged, also
  when it ends with \<open>'' - ''\<close>.
\<close>

theorem cleanProductName_exact_suffix:
  "(v \<noteq> [] \<longrightarrow> cleanProductName (Str (stem @ '' - '' @ v)) (Str v) = Inr (Str stem)) \<and>
   (v = [] \<or> (\<forall>a. p \<noteq> a @ '' - '' @ v) \<longrightarrow> cleanProductName (Str p) (Str v) = Inr (Str p))"
proof (intro conjI impI)
  assume "v \<noteq> []"
  have "ends_with (stem @ '' - '' @ v) ('' - '' @ v)"
    unfolding ends_with_iff by blast
  moreover have "slice_off (stem @ '' - '' @ v) (length ('' - '' @ v)) = stem"
    by (rule slice_off_append)
  ultimately show "cleanProductName (Str (stem @ '' - '' @ v)) (Str v) = Inr (Str stem)"
    using \<open>v \<noteq> []\<close> by (simp only: cleanProductName_strings) simp
next
  assume "v = [] \<or> (\<forall>a. p \<noteq> a @ '' - '' @ v)"
  then have "v = [] \<or> \<not> ends_with p ('' - '' @ v)"
    unfolding ends_with_iff by blast
  then show "cleanProductName (Str p) (Str v) = Inr (Str p)"
    by (auto simp only: cleanProductName_strings split: if_splits)
qed

text \<open>The three examples of the specification.\<close>

theorem cleanProductName_exact_suffix_witness:
  "''Large'' \<noteq> [] \<and>
   cleanProductName (Str ''Shirt - Large'') (Str ''Large'') = Inr (Str ''Shirt'') \<and>
   cleanProductName (Str ''Shirt'') (Str ''Large'') = Inr (Str ''Shirt'') \<and>
   cleanProductName (Str ''Shirt - Large - XL'') (Str ''Large'') = Inr (Str ''Shirt - Large - XL'')"
  using cleanProductName_exact_suffix [of "''Large''" "''Shirt''" "''Shirt''"]
    cleanProductName_exact_suffix [of "''Large''" "''Shirt''" "''Shirt - Large - XL''"]
  by (simp add: cleanProductName_def string_eval)

text \<open>C3 as stated fails for the empty variant title: the product title \<open>''Shirt - ''\<close>
  ends with the suffix \<open>'' - '' @ []\<close>, stripping it would give \<open>''Shirt''\<close>, and the code
  returns the title as it is.\<close>

theorem cleanProductName_empty_variant_counterexample:
  "ends_with ''Shirt - '' ('' - '' @ []) \<and>
   slice_off ''Shirt - '' (length ('' - '' @ [])) = ''Shirt'' \<and>
   cleanProductName (Str ''Shirt - '') (Str []) = Inr (Str ''Shirt - '')"
  by (simp add: cleanProductName_def string_eval)

subsection \<open>Item identity\<close>

lemma createItemId_sku:
  assumes "get_prop variant ''sku'' = Inr (Str s)" and "trim s \<noteq> []"
  shows "createItemId product variant = Inr (Str (''SKU_'' @ s))"
proof -
  from assms(2) have "s \<noteq> []" by auto
  with assms show ?thesis by (simp add: createItemId_def)
qed

lemma createItemId_fallback:
  assumes "get_prop variant ''sku'' = Inr sku"
    and "\<not> truthy sku \<or> (\<exists>s. sku = Str s \<and> trim s = [])"
  shows "createItemId product variant =
    bindE (get_prop product ''id'') (\<lambda>pid.
    bindE (to_string pid) (\<lambda>ps.
    bindE (get_prop variant ''id'') (\<lambda>vid.
    bindE (to_string vid) (\<lambda>vs.
      Inr (Str (''shopify_DE_'' @ ps @ ''_'' @ vs))))))"
  using assms by (auto simp: createItemId_def)

text \<open>
  C2. The variant's SKU is a string \<open>s\<close> or absent (then \<open>s\<close> is empty). The identity
  is \<open>''SKU_'' @ s\<close>, with the SKU as it stands, exactly when \<open>s\<close> is not empty after
  trimming; otherwise it is \<open>shopify_DE\<close>, the product's id and the variant's id, joined
  by underscores, whenever the two ids can be read and written as strings.
\<close>

theorem createItemId_identity:
  assumes "get_prop variant ''sku'' = Inr sku"
    and "sku = Str s \<or> (nullish sku \<and> s = [])"
  shows "(createItemId product variant = Inr (Str (''SKU_'' @ s))) = (trim s \<noteq> []) \<and>
    (trim s = [] \<longrightarrow>
       get_prop product ''id'' = Inr pid \<longrightarrow> to_string pid = Inr ps \<longrightarrow>
       get_prop variant ''id'' = Inr vid \<longrightarrow> to_string vid = Inr vs \<longrightarrow>
       createItemId product variant = Inr (Str (''shopify_DE_'' @ ps @ ''_'' @ vs)))"
proof (cases "trim s = []")
  case True
  with assms(2) have "\<not> truthy sku \<or> (\<exists>s. sku = Str s \<and> trim s = [])"
    by (auto simp: nullish_def)
  from createItemId_fallback [OF assms(1) this, of product] True
  show ?thesis
    by (auto simp: bindE_eq_Inr)
next
  case False
  with assms(2) have "sku = Str s" by auto
  with assms(1) False show ?thesis
    by (simp add: createItemId_sku)
qed

text \<open>A SKU with surrounding blanks, a SKU of blanks only, and a variant without SKU
  whose id is a number.\<close>

theorem createItemId_identity_witness:
  "createItemId (Obj [(''id'', Str ''p1'')]) (Obj [(''id'', Str ''v1''), (''sku'', Str '' AB-1 '')])
     = Inr (Str ''SKU_ AB-1 '') \<and>
   createItemId (Obj [(''id'', Str ''p1'')]) (Obj [(''id'', Str ''v1''), (''sku'', Str ''  '')])
     = Inr (Str ''shopify_DE_p1_v1'') \<and>
   createItemId (Obj [(''id'', Str ''p1'')]) (Obj [(''id'', Num (Fin 7))])
     = Inr (Str ''shopify_DE_p1_7'')"
proof -
  let ?p = "Obj [(''id'', Str ''p1'')]"
  let ?v1 = "Obj [(''id'', Str ''v1''), (''sku'', Str '' AB-1 '')]"
  let ?v2 = "Obj [(''id'', Str ''v1''), (''sku'', Str ''  '')]"
  let ?v3 = "Obj [(''id'', Num (Fin 7))]"
  have p: "get_prop ?p ''id'' = Inr (Str ''p1'')" "to_string (Str ''p1'') = Inr ''p1''"
    by (simp_all add: get_prop_def)
  have 1: "get_prop ?v1 ''sku'' = Inr (Str '' AB-1 '')" "trim '' AB-1 '' \<noteq> []"
    by (simp_all add: get_prop_def string_eval)
  have 2: "get_prop ?v2 ''sku'' = Inr (Str ''  '')" "trim ''  '' = []"
    "get_prop ?v2 ''id'' = Inr (Str ''v1'')" "to_string (Str ''v1'') = Inr ''v1''"
    by (simp_all add: get_prop_def string_eval)
  have 3: "get_prop ?v3 ''sku'' = Inr Undefined" "nullish Undefined"
    "get_prop ?v3 ''id'' = Inr (Num (Fin 7))" "to_string (Num (Fin 7)) = Inr ''7''"
    by (simp_all add: get_prop_def nullish_def small_numbers_as_strings)
  show ?thesis
    using createItemId_identity [of ?v1 "Str '' AB-1 ''" "'' AB-1 ''" ?p] 1
      createItemId_identity [of ?v2 "Str ''  ''" "''  ''" ?p "Str ''p1''" "''p1''" "Str ''v1''" "''v1''"] 2 p
      createItemId_identity [of ?v3 Undefined "[]" ?p "Str ''p1''" "''p1''" "Num (Fin 7)" "''7''"] 3
    by simp
qed

subsection \<open>The structure of a formatted item\<close>

lemma map_of_put: "map_of (put key v item) k = (if k = key \<and> v \<noteq> None then v else map_of item k)"
  by (cases v) (simp_all add: put_def update_conv')

lemma keys_put: "fst ` set (put key v item) \<subseteq> insert key (fst ` set item)"
  by (cases v) (auto simp: put_def dom_update)

lemma get_prop_eq_Inr: "get_prop v name = Inr x \<longleftrightarrow> \<not> nullish v \<and> x = prop_of v name"
  by (cases v) (auto simp: get_prop_def prop_of_def nullish_def)

lemma prop_of_nullish [simp]: "nullish v \<Longrightarrow> prop_of v name = Undefined"
  by (auto simp: nullish_def prop_of_def get_prop_def)

lemma prop_of_Undefined [simp]: "prop_of Undefined name = Undefined" "prop_of Null name = Undefined"
  by (simp_all add: prop_of_def get_prop_def)

lemma truthy_not_nullish: "truthy v \<Longrightarrow> \<not> nullish v"
  by (auto simp: nullish_def)

lemma base_item_Inr:
  assumes "base_item product variant quantity = Inr b"
  shows "\<exists>item_id item_name n.
    createItemId product variant = Inr item_id \<and>
    cleanProductName (prop_of product ''title'') (prop_of variant ''title'') = Inr item_name \<and>
    parseFloat (prop_of (prop_of variant ''price'') ''amount'') = Inr n \<and>
    \<not> nullish product \<and> \<not> nullish variant \<and>
    b = [(''item_id'', item_id),
         (''item_name'', item_name),
         (''item_variant'', prop_of variant ''title''),
         (''item_brand'', js_or (prop_of product ''vendor'') (Str FALLBACK_BRAND)),
         (''item_category'', js_or (prop_of product ''type'') (Str [])),
         (''price'', Num n),
         (''quantity'', quantity)]"
  using assms unfolding base_item_def bindE_eq_Inr get_prop_eq_Inr
  by auto

lemma collection_title_Arr:
  assumes "get_prop product ''collections'' = Inr (Arr cs)"
  shows "collection_title product i =
    Inr (if i < length cs then prop_of (cs ! i) ''title'' else Undefined)"
proof (cases "i < length cs")
  case True
  show ?thesis
  proof (cases "nullish (cs ! i)")
    case n: True
    with True assms show ?thesis
      by (simp add: collection_title_def get_index_def nullish_def)
  next
    case n: False
    then have "get_prop (cs ! i) ''title'' = Inr (prop_of (cs ! i) ''title'')"
      by (simp add: get_prop_eq_Inr)
    with True n assms show ?thesis
      by (simp add: collection_title_def get_index_def nullish_def)
  qed
next
  case False
  with assms show ?thesis
    by (simp add: collection_title_def get_index_def nullish_def)
qed

lemma collection_title_nullish:
  assumes "get_prop product ''collections'' = Inr c" and "nullish c"
  shows "collection_title product i = Inr Undefined"
  using assms by (simp add: collection_title_def)

lemma collection_category_Nil [simp]: "collection_category [] i = None"
  by (simp add: collection_category_def)

lemma add_category_listed:
  assumes "\<not> nullish product"
    and "prop_of product ''collections'' = Arr cs \<or> (nullish (prop_of product ''collections'') \<and> cs = [])"
  shows "add_category product i key item = Inr (put key (collection_category cs i) item)"
proof -
  have g: "get_prop product ''collections'' = Inr (prop_of product ''collections'')"
    using assms(1) by (simp add: get_prop_eq_Inr)
  from assms(2) show ?thesis
  proof
    assume a: "prop_of product ''collections'' = Arr cs"
    show ?thesis
      using collection_title_Arr [of product cs i] g a
      by (simp add: add_category_def collection_category_def put_def)
  next
    assume a: "nullish (prop_of product ''collections'') \<and> cs = []"
    then show ?thesis
      using collection_title_nullish [OF g, of i]
      by (simp add: add_category_def put_def)
  qed
qed

lemma add_categories_listed:
  assumes "\<not> nullish product"
    and "prop_of product ''collections'' = Arr cs \<or> (nullish (prop_of product ''collections'') \<and> cs = [])"
  shows "add_categories product item =
    Inr (put ''item_category5'' (collection_category cs 3)
        (put ''item_category4'' (collection_category cs 2)
        (put ''item_category3'' (collection_category cs 1)
        (put ''item_category2'' (collection_category cs 0) item))))"
  by (simp add: add_categories_def add_category_listed [OF assms])

lemma opt_chain [simp]:
  "(if nullish a then Inr Undefined else get_prop a name) = Inr (prop_of a name)"
  by (simp add: get_prop_eq_Inr)

lemma get_prop_truthy: "truthy v \<Longrightarrow> get_prop v name = Inr (prop_of v name)"
  by (simp add: get_prop_eq_Inr truthy_not_nullish)

lemma add_discount_unfold:
  assumes "first_discount_allocation lineItem = Inr da"
  shows "add_discount lineItem item =
    (if \<not> truthy da then Inr item
     else
       bindE (if truthy (prop_of (prop_of da ''amount'') ''amount'')
              then bindE (parseFloat (prop_of (prop_of da ''amount'') ''amount''))
                     (\<lambda>d. Inr (AList.update ''discount'' (Num d) item))
              else Inr item) (\<lambda>item.
         Inr (if truthy (prop_of (prop_of da ''discountApplication'') ''title'')
              then AList.update ''coupon'' (prop_of (prop_of da ''discountApplication'') ''title'') item
              else item)))"
  using assms by (simp add: add_discount_def get_prop_truthy)

lemma first_discount_allocation_none:
  assumes "nullish lineItem \<or> nullish (prop_of lineItem ''discountAllocations'')
     \<or> prop_of lineItem ''discountAllocations'' = Arr []"
  shows "first_discount_allocation lineItem = Inr Undefined"
proof (cases "nullish lineItem")
  case True
  then show ?thesis by (simp add: first_discount_allocation_def)
next
  case False
  then have "get_prop lineItem ''discountAllocations'' = Inr (prop_of lineItem ''discountAllocations'')"
    by (simp add: get_prop_eq_Inr)
  with False assms show ?thesis
    by (auto simp: first_discount_allocation_def get_index_def)
qed

lemma first_discount_allocation_first:
  assumes "prop_of lineItem ''discountAllocations'' = Arr (d # rest)"
  shows "first_discount_allocation lineItem = Inr d"
proof -
  have "\<not> nullish lineItem"
    using assms by (auto simp: nullish_def prop_of_def get_prop_def)
  then have "get_prop lineItem ''discountAllocations'' = Inr (Arr (d # rest))"
    using assms by (simp add: get_prop_eq_Inr)
  with \<open>\<not> nullish lineItem\<close> show ?thesis
    by (simp add: first_discount_allocation_def get_index_def nullish_def)
qed

lemma first_discount_allocation_total: "\<exists>da. first_discount_allocation lineItem = Inr da"
proof (cases "nullish lineItem")
  case True
  then show ?thesis by (simp add: first_discount_allocation_def)
next
  case False
  then have "get_prop lineItem ''discountAllocations'' = Inr (prop_of lineItem ''discountAllocations'')"
    by (simp add: get_prop_eq_Inr)
  with False show ?thesis
    by (cases "prop_of lineItem ''discountAllocations''")
      (simp_all add: first_discount_allocation_def get_index_def nullish_def)
qed

lemma add_discount_Inr:
  assumes "add_discount lineItem item = Inr item'"
  shows "\<exists>d c. item' = put ''coupon'' c (put ''discount'' d item)"
proof -
  obtain da where da: "first_discount_allocation lineItem = Inr da"
    using first_discount_allocation_total by blast
  let ?amt = "prop_of (prop_of da ''amount'') ''amount''"
  let ?t = "prop_of (prop_of da ''discountApplication'') ''title''"
  show ?thesis
  proof (cases "truthy da")
    case False
    with assms da have "item' = put ''coupon'' None (put ''discount'' None item)"
      by (simp add: add_discount_unfold put_def)
    then show ?thesis by blast
  next
    case True
    show ?thesis
    proof (cases "truthy ?amt")
      case amt: True
      with True assms da obtain n where n: "parseFloat ?amt = Inr n"
        by (auto simp: add_discount_unfold bindE_eq_Inr)
      with amt True assms da
      have "item' = put ''coupon'' (if truthy ?t then Some ?t else None) (put ''discount'' (Some (Num n)) item)"
        by (auto simp: add_discount_unfold put_def)
      then show ?thesis by blast
    next
      case amt: False
      with True assms da
      have "item' = put ''coupon'' (if truthy ?t then Some ?t else None) (put ''discount'' None item)"
        by (auto simp: add_discount_unfold put_def)
      then show ?thesis by blast
    qed
  qed
qed

lemma formatItem_Inr:
  assumes "formatItem variant quantity lineItem = Inr it"
  shows "\<exists>b c d. \<not> nullish variant \<and>
     base_item (js_or (prop_of variant ''product'') variant) variant
        (if quantity = Undefined then Num (Fin 1) else quantity) = Inr b \<and>
     add_categories (js_or (prop_of variant ''product'') variant) b = Inr c \<and>
     add_discount (if lineItem = Undefined then Null else lineItem) c = Inr d \<and>
     it = Obj d"
  using assms unfolding formatItem_def bindE_eq_Inr get_prop_eq_Inr Let_def
  by auto

lemma add_category_Inr:
  assumes "add_category product i key item = Inr item'"
  shows "\<exists>v. item' = put key v item \<and> (\<forall>x. v = Some x \<longrightarrow> truthy x)"
proof -
  from assms obtain t where t: "collection_title product i = Inr t"
    and i: "item' = (if truthy t then AList.update key t item else item)"
    by (auto simp: add_category_def bindE_eq_Inr)
  then have "item' = put key (if truthy t then Some t else None) item"
    by (simp add: put_def)
  moreover have "\<forall>x. (if truthy t then Some t else None) = Some x \<longrightarrow> truthy x"
    by simp
  ultimately show ?thesis by blast
qed

lemma add_categories_Inr:
  assumes "add_categories product b = Inr c"
  shows "\<exists>v2 v3 v4 v5. c =
     put ''item_category5'' v5 (put ''item_category4'' v4
       (put ''item_category3'' v3 (put ''item_category2'' v2 b)))"
proof -
  from assms obtain c2 c3 c4 where
    1: "add_category product 0 ''item_category2'' b = Inr c2"
    and 2: "add_category product 1 ''item_category3'' c2 = Inr c3"
    and 3: "add_category product 2 ''item_category4'' c3 = Inr c4"
    and 4: "add_category product 3 ''item_category5'' c4 = Inr c"
    by (auto simp: add_categories_def bindE_eq_Inr)
  from add_category_Inr [OF 1] obtain v2 where "c2 = put ''item_category2'' v2 b" by blast
  moreover from add_category_Inr [OF 2] obtain v3 where "c3 = put ''item_category3'' v3 c2" by blast
  moreover from add_category_Inr [OF 3] obtain v4 where "c4 = put ''item_category4'' v4 c3" by blast
  moreover from add_category_Inr [OF 4] obtain v5 where "c = put ''item_category5'' v5 c4" by blast
  ultimately show ?thesis by blast
qed

lemma keys_put_subset:
  assumes "fst ` set item \<subseteq> S"
  shows "fst ` set (put key v item) \<subseteq> insert key S"
  by (rule order_trans [OF keys_put insert_mono [OF assms]])

lemma field_Obj [simp]: "field (Obj kvs) k = map_of kvs k"
  by (simp add: field_def)

lemma own_keys_Obj [simp]: "own_keys (Obj kvs) = map fst kvs"
  by (simp add: own_keys_def)

lemma formatItem_base_fields:
  assumes "formatItem variant quantity lineItem = Inr item"
    and "product = js_or (prop_of variant ''product'') variant"
  shows "\<exists>item_id item_name n.
    createItemId product variant = Inr item_id \<and>
    cleanProductName (prop_of product ''title'') (prop_of variant ''title'') = Inr item_name \<and>
    parseFloat (prop_of (prop_of variant ''price'') ''amount'') = Inr n \<and>
    field item ''item_id'' = Some item_id \<and>
    field item ''item_name'' = Some item_name \<and>
    field item ''item_variant'' = Some (prop_of variant ''title'') \<and>
    field item ''item_brand'' = Some (js_or (prop_of product ''vendor'') (Str FALLBACK_BRAND)) \<and>
    field item ''item_category'' = Some (js_or (prop_of product ''type'') (Str [])) \<and>
    field item ''price'' = Some (Num n) \<and>
    field item ''quantity'' = Some (if quantity = Undefined then Num (Fin 1) else quantity)"
proof -
  from formatItem_Inr [OF assms(1)] assms(2) obtain b c d where
    b: "base_item product variant (if quantity = Undefined then Num (Fin 1) else quantity) = Inr b"
    and c: "add_categories product b = Inr c"
    and d: "add_discount (if lineItem = Undefined then Null else lineItem) c = Inr d"
    and it: "item = Obj d"
    by auto
  from add_categories_Inr [OF c] obtain v2 v3 v4 v5 where c': "c =
     put ''item_category5'' v5 (put ''item_category4'' v4
       (put ''item_category3'' v3 (put ''item_category2'' v2 b)))"
    by blast
  from add_discount_Inr [OF d] obtain dv cv where d': "d = put ''coupon'' cv (put ''discount'' dv c)"
    by blast
  from base_item_Inr [OF b] obtain item_id item_name n where
    1: "createItemId product variant = Inr item_id"
    and 2: "cleanProductName (prop_of product ''title'') (prop_of variant ''title'') = Inr item_name"
    and 3: "parseFloat (prop_of (prop_of variant ''price'') ''amount'') = Inr n"
    and b': "b = [(''item_id'', item_id),
         (''item_name'', item_name),
         (''item_variant'', prop_of variant ''title''),
         (''item_brand'', js_or (prop_of product ''vendor'') (Str FALLBACK_BRAND)),
         (''item_category'', js_or (prop_of product ''type'') (Str [])),
         (''price'', Num n),
         (''quantity'', if quantity = Undefined then Num (Fin 1) else quantity)]"
    by blast
  show ?thesis
    using 1 2 3 unfolding it d' c' b'
    by (simp add: map_of_put)
qed

lemma formatItem_keys:
  assumes "formatItem variant quantity lineItem = Inr item"
  shows "set (own_keys item) \<subseteq> set (base_keys @ category_keys @ [''discount'', ''coupon''])"
proof -
  from formatItem_Inr [OF assms] obtain b c d where
    b: "base_item (js_or (prop_of variant ''product'') variant) variant
          (if quantity = Undefined then Num (Fin 1) else quantity) = Inr b"
    and c: "add_categories (js_or (prop_of variant ''product'') variant) b = Inr c"
    and d: "add_discount (if lineItem = Undefined then Null else lineItem) c = Inr d"
    and it: "item = Obj d"
    by auto
  from add_categories_Inr [OF c] obtain v2 v3 v4 v5 where c': "c =
     put ''item_category5'' v5 (put ''item_category4'' v4
       (put ''item_category3'' v3 (put ''item_category2'' v2 b)))"
    by blast
  from add_discount_Inr [OF d] obtain dv cv where d': "d = put ''coupon'' cv (put ''discount'' dv c)"
    by blast
  from base_item_Inr [OF b] have "map fst b = base_keys"
    by (auto simp: base_keys_def)
  then have "fst ` set b \<subseteq> set base_keys"
    by (metis order_refl set_map)
  then have "fst ` set d \<subseteq> insert ''coupon'' (insert ''discount'' (insert ''item_category5''
      (insert ''item_category4'' (insert ''item_category3'' (insert ''item_category2''
        (set base_keys))))))"
    unfolding d' c' by (intro keys_put_subset)
  then show ?thesis
    unfolding it by (auto simp: category_keys_def)
qed

lemma formatItem_category_fields:
  assumes "formatItem variant quantity lineItem = Inr item"
    and "product = js_or (prop_of variant ''product'') variant"
    and "prop_of product ''collections'' = Arr cs \<or>
         (nullish (prop_of product ''collections'') \<and> cs = [])"
  shows "field item ''item_category2'' = collection_category cs 0"
    and "field item ''item_category3'' = collection_category cs 1"
    and "field item ''item_category4'' = collection_category cs 2"
    and "field item ''item_category5'' = collection_category cs 3"
proof -
  from formatItem_Inr [OF assms(1)] assms(2) obtain b c d where
    nn: "\<not> nullish variant"
    and b: "base_item product variant (if quantity = Undefined then Num (Fin 1) else quantity) = Inr b"
    and c: "add_categories product b = Inr c"
    and d: "add_discount (if lineItem = Undefined then Null else lineItem) c = Inr d"
    and it: "item = Obj d"
    by auto
  from base_item_Inr [OF b] have np: "\<not> nullish product" and kb: "map fst b = base_keys"
    by (auto simp: base_keys_def)
  have nb: "map_of b ''item_category2'' = None" "map_of b ''item_category3'' = None"
    "map_of b ''item_category4'' = None" "map_of b ''item_category5'' = None"
    using base_item_Inr [OF b] by auto
  from c add_categories_listed [OF np assms(3), of b]
  have c': "c = put ''item_category5'' (collection_category cs 3)
        (put ''item_category4'' (collection_category cs 2)
        (put ''item_category3'' (collection_category cs 1)
        (put ''item_category2'' (collection_category cs 0) b)))"
    by simp
  from add_discount_Inr [OF d] obtain dv cv where d': "d = put ''coupon'' cv (put ''discount'' dv c)"
    by blast
  show "field item ''item_category2'' = collection_category cs 0"
    and "field item ''item_category3'' = collection_category cs 1"
    and "field item ''item_category4'' = collection_category cs 2"
    and "field item ''item_category5'' = collection_category cs 3"
    unfolding it d' c' using nb by (auto simp: map_of_put)
qed

lemmas number_eval = parse_float_def parse_signed_def parse_unsigned_def parse_exponent_def
  scale10_def is_digit_def digit_in_def digit_table_def digits_value_def exact_doubles

lemmas item_eval = formatItem_def base_item_def createItemId_def cleanProductName_def
  add_categories_def add_category_def collection_title_def add_discount_def
  first_discount_allocation_def get_prop_def get_index_def js_or_def nullish_def
  parseFloat_def FALLBACK_BRAND_def

subsection \<open>Categories\<close>

lemma shirt_item:
  "formatItem shirt_variant Undefined Undefined = Inr (Obj
    [(''item_id'', Str ''shopify_DE_p1_v1''),
     (''item_name'', Str ''Shirt''),
     (''item_variant'', Str ''Large''),
     (''item_brand'', Str ''Acme''),
     (''item_category'', Str ''Shirts''),
     (''price'', Num (Fin 10)),
     (''quantity'', Num (Fin 1)),
     (''item_category2'', Str ''Summer''),
     (''item_category3'', Str ''Sale'')])"
  by (simp add: shirt_variant_def shirt_product_def item_eval string_eval number_eval)

lemma less_4_cases: "i < 4 \<Longrightarrow> i = 0 \<or> i = 1 \<or> i = 2 \<or> i = (3::nat)"
  by arith

text \<open>
  C1, as the code has it. Let \<open>product\<close> be the variant's product (the variant itself
  when it carries none) and \<open>cs\<close> its collections (empty when the product has none). Every
  formatted item has the field \<open>item_category\<close>: the product's type when that is truthy,
  the empty string otherwise, hence a string whenever the type is a string or falsy. For
  each of the first four positions \<open>i\<close>, the field \<open>item_category(i+2)\<close> is present exactly
  when \<open>cs\<close> has a collection at position \<open>i\<close> whose title is truthy, and then it is that
  title; a field that is present is never \<^verbatim>\<open>null\<close>. The item has no field beyond the seven
  base fields, these four and \<open>discount\<close> and \<open>coupon\<close>. When every collection has a truthy
  title, exactly the first \<open>min (length cs) 4\<close> category fields are present.
\<close>

theorem formatItem_categories:
  assumes "formatItem variant quantity lineItem = Inr item"
    and "product = js_or (prop_of variant ''product'') variant"
    and "prop_of product ''collections'' = Arr cs \<or>
         (nullish (prop_of product ''collections'') \<and> cs = [])"
  shows "field item ''item_category'' = Some (js_or (prop_of product ''type'') (Str [])) \<and>
    (\<not> truthy (prop_of product ''type'') \<or> (\<exists>s. prop_of product ''type'' = Str s) \<longrightarrow>
       (\<exists>s. field item ''item_category'' = Some (Str s))) \<and>
    (\<forall>i<4. field item (category_keys ! i) = collection_category cs i) \<and>
    set (own_keys item) \<subseteq> set (base_keys @ category_keys @ [''discount'', ''coupon'']) \<and>
    ((\<forall>c\<in>set cs. truthy (prop_of c ''title'')) \<longrightarrow>
       (\<forall>i<4. (field item (category_keys ! i) \<noteq> None) = (i < length cs)))"
proof (intro conjI)
  from formatItem_base_fields [OF assms(1,2)]
  show cat: "field item ''item_category'' = Some (js_or (prop_of product ''type'') (Str []))"
    by blast
  show "\<not> truthy (prop_of product ''type'') \<or> (\<exists>s. prop_of product ''type'' = Str s) \<longrightarrow>
       (\<exists>s. field item ''item_category'' = Some (Str s))"
    unfolding cat by (auto simp: js_or_def)
  show cats: "\<forall>i<4. field item (category_keys ! i) = collection_category cs i"
    using formatItem_category_fields [OF assms]
    by (auto dest!: less_4_cases simp: category_keys_def)
  show "set (own_keys item) \<subseteq> set (base_keys @ category_keys @ [''discount'', ''coupon''])"
    by (rule formatItem_keys [OF assms(1)])
  show "(\<forall>c\<in>set cs. truthy (prop_of c ''title'')) \<longrightarrow>
       (\<forall>i<4. (field item (category_keys ! i) \<noteq> None) = (i < length cs))"
    using cats by (auto simp: collection_category_def)
qed

text \<open>A product with two titled collections.\<close>

theorem formatItem_categories_witness:
  "formatItem shirt_variant Undefined Undefined = Inr (Obj
    [(''item_id'', Str ''shopify_DE_p1_v1''),
     (''item_name'', Str ''Shirt''),
     (''item_variant'', Str ''Large''),
     (''item_brand'', Str ''Acme''),
     (''item_category'', Str ''Shirts''),
     (''price'', Num (Fin 10)),
     (''quantity'', Num (Fin 1)),
     (''item_category2'', Str ''Summer''),
     (''item_category3'', Str ''Sale'')]) \<and>
   collection_category [Obj [(''title'', Str ''Summer'')], Obj [(''title'', Str ''Sale'')]] 0
     = Some (Str ''Summer'') \<and>
   collection_category [Obj [(''title'', Str ''Summer'')], Obj [(''title'', Str ''Sale'')]] 1
     = Some (Str ''Sale'') \<and>
   collection_category [Obj [(''title'', Str ''Summer'')], Obj [(''title'', Str ''Sale'')]] 2
     = None \<and>
   collection_category [Obj [(''title'', Str ''Summer'')], Obj [(''title'', Str ''Sale'')]] 3
     = None"
proof -
  have p: "shirt_product = js_or (prop_of shirt_variant ''product'') shirt_variant"
    by (simp add: shirt_variant_def shirt_product_def js_or_def prop_of_def get_prop_def)
  have c: "prop_of shirt_product ''collections'' =
      Arr [Obj [(''title'', Str ''Summer'')], Obj [(''title'', Str ''Sale'')]]"
    by (simp add: shirt_product_def prop_of_def get_prop_def)
  from formatItem_categories [OF shirt_item p disjI1 [OF c]]
  have "\<forall>i<4. field (Obj
    [(''item_id'', Str ''shopify_DE_p1_v1''),
     (''item_name'', Str ''Shirt''),
     (''item_variant'', Str ''Large''),
     (''item_brand'', Str ''Acme''),
     (''item_category'', Str ''Shirts''),
     (''price'', Num (Fin 10)),
     (''quantity'', Num (Fin 1)),
     (''item_category2'', Str ''Summer''),
     (''item_category3'', Str ''Sale'')]) (category_keys ! i) =
     collection_category [Obj [(''title'', Str ''Summer'')], Obj [(''title'', Str ''Sale'')]] i"
    by blast
  then have "\<forall>i\<in>{0, 1, 2, 3}. field (Obj
    [(''item_id'', Str ''shopify_DE_p1_v1''),
     (''item_name'', Str ''Shirt''),
     (''item_variant'', Str ''Large''),
     (''item_brand'', Str ''Acme''),
     (''item_category'', Str ''Shirts''),
     (''price'', Num (Fin 10)),
     (''quantity'', Num (Fin 1)),
     (''item_category2'', Str ''Summer''),
     (''item_category3'', Str ''Sale'')]) (category_keys ! i) =
     collection_category [Obj [(''title'', Str ''Summer'')], Obj [(''title'', Str ''Sale'')]] i"
    by simp
  then show ?thesis
    using shirt_item by (simp add: category_keys_def)
qed

text \<open>C1 as stated fails for a collection without a title: the product has two
  collections, the first with the empty title, and the item has \<open>item_category3\<close> and no
  \<open>item_category2\<close>.\<close>

theorem formatItem_categories_counterexample:
  "prop_of untitled_product ''collections'' =
     Arr [Obj [(''title'', Str [])], Obj [(''title'', Str ''Sale'')]] \<and>
   formatItem cap_variant Undefined Undefined = Inr (Obj
    [(''item_id'', Str ''SKU_CAP-1''),
     (''item_name'', Str ''Cap''),
     (''item_variant'', Str ''One size''),
     (''item_brand'', Str ''Acme''),
     (''item_category'', Str ''Hats''),
     (''price'', Num (Fin (25 / 2))),
     (''quantity'', Num (Fin 1)),
     (''item_category3'', Str ''Sale'')])"
  by (simp add: cap_variant_def untitled_product_def prop_of_def item_eval string_eval number_eval)

subsection \<open>Discount and coupon\<close>

lemma add_discount_put:
  assumes "add_discount lineItem item = Inr item'"
    and "first_discount_allocation lineItem = Inr da"
  shows "item' =
      put ''coupon''
        (if truthy da \<and> truthy (prop_of (prop_of da ''discountApplication'') ''title'')
         then Some (prop_of (prop_of da ''discountApplication'') ''title'') else None)
        (put ''discount''
          (if truthy da \<and> truthy (prop_of (prop_of da ''amount'') ''amount'')
           then (case parseFloat (prop_of (prop_of da ''amount'') ''amount'') of
                   Inr n \<Rightarrow> Some (Num n) | Inl _ \<Rightarrow> None)
           else None) item)"
    and "truthy da \<and> truthy (prop_of (prop_of da ''amount'') ''amount'') \<longrightarrow>
      (\<exists>n. parseFloat (prop_of (prop_of da ''amount'') ''amount'') = Inr n)"
proof -
  let ?amt = "prop_of (prop_of da ''amount'') ''amount''"
  let ?t = "prop_of (prop_of da ''discountApplication'') ''title''"
  note u = assms(1) [unfolded add_discount_unfold [OF assms(2)]]
  show p: "truthy da \<and> truthy ?amt \<longrightarrow> (\<exists>n. parseFloat ?amt = Inr n)"
    using u by (auto simp: bindE_eq_Inr)
  show "item' =
      put ''coupon'' (if truthy da \<and> truthy ?t then Some ?t else None)
        (put ''discount''
          (if truthy da \<and> truthy ?amt
           then (case parseFloat ?amt of Inr n \<Rightarrow> Some (Num n) | Inl _ \<Rightarrow> None)
           else None) item)"
  proof (cases "truthy da")
    case False
    with u show ?thesis by (simp add: put_def)
  next
    case True
    show ?thesis
    proof (cases "truthy ?amt")
      case amt: True
      with True p obtain n where n: "parseFloat ?amt = Inr n" by blast
      with amt True u show ?thesis
        by (auto simp: put_def)
    next
      case amt: False
      with True u show ?thesis
        by (auto simp: put_def)
    qed
  qed
qed

lemma formatItem_discount_fields:
  assumes "formatItem variant quantity lineItem = Inr item"
    and "first_discount_allocation (if lineItem = Undefined then Null else lineItem) = Inr da"
  shows "field item ''discount'' =
      (if truthy da \<and> truthy (prop_of (prop_of da ''amount'') ''amount'')
       then (case parseFloat (prop_of (prop_of da ''amount'') ''amount'') of
               Inr n \<Rightarrow> Some (Num n) | Inl _ \<Rightarrow> None)
       else None)"
    and "field item ''coupon'' =
      (if truthy da \<and> truthy (prop_of (prop_of da ''discountApplication'') ''title'')
       then Some (prop_of (prop_of da ''discountApplication'') ''title'')
       else None)"
    and "truthy da \<and> truthy (prop_of (prop_of da ''amount'') ''amount'') \<longrightarrow>
      (\<exists>n. parseFloat (prop_of (prop_of da ''amount'') ''amount'') = Inr n)"
proof -
  let ?product = "js_or (prop_of variant ''product'') variant"
  from formatItem_Inr [OF assms(1)] obtain b c d where
    b: "base_item ?product variant (if quantity = Undefined then Num (Fin 1) else quantity) = Inr b"
    and c: "add_categories ?product b = Inr c"
    and d: "add_discount (if lineItem = Undefined then Null else lineItem) c = Inr d"
    and it: "item = Obj d"
    by auto
  from add_categories_Inr [OF c] obtain v2 v3 v4 v5 where c': "c =
     put ''item_category5'' v5 (put ''item_category4'' v4
       (put ''item_category3'' v3 (put ''item_category2'' v2 b)))"
    by blast
  have nc: "map_of c ''discount'' = None" "map_of c ''coupon'' = None"
    unfolding c' using base_item_Inr [OF b] by (auto simp: map_of_put)
  note p = add_discount_put [OF d assms(2)]
  show "truthy da \<and> truthy (prop_of (prop_of da ''amount'') ''amount'') \<longrightarrow>
      (\<exists>n. parseFloat (prop_of (prop_of da ''amount'') ''amount'') = Inr n)"
    by (rule p(2))
  show "field item ''discount'' =
      (if truthy da \<and> truthy (prop_of (prop_of da ''amount'') ''amount'')
       then (case parseFloat (prop_of (prop_of da ''amount'') ''amount'') of
               Inr n \<Rightarrow> Some (Num n) | Inl _ \<Rightarrow> None)
       else None)"
    unfolding it field_Obj p(1) using nc p(2) by (auto simp: map_of_put)
  show "field item ''coupon'' =
      (if truthy da \<and> truthy (prop_of (prop_of da ''discountApplication'') ''title'')
       then Some (prop_of (prop_of da ''discountApplication'') ''title'')
       else None)"
    unfolding it field_Obj p(1) using nc by (auto simp: map_of_put)
qed

text \<open>
  C8, as the code has it. Without a line item, without discount allocations, or with an
  empty list of them, a formatted item has neither \<open>discount\<close> nor \<open>coupon\<close>. With the
  allocations \<open>d # rest\<close>, only \<open>d\<close> counts: \<open>discount\<close> is set, to the parsed amount, exactly
  when \<open>d\<close> and its amount are truthy (an amount that is the number 0 sets nothing), and
  \<open>coupon\<close> is set, to the title, exactly when \<open>d\<close> and the title of its discount
  application are truthy; neither condition depends on the other, nor on \<open>rest\<close>.
\<close>

theorem formatItem_first_allocation:
  assumes "formatItem variant quantity lineItem = Inr item"
  shows "(nullish lineItem \<or> nullish (prop_of lineItem ''discountAllocations'') \<or>
          prop_of lineItem ''discountAllocations'' = Arr [] \<longrightarrow>
            field item ''discount'' = None \<and> field item ''coupon'' = None) \<and>
    (prop_of lineItem ''discountAllocations'' = Arr (d # rest) \<longrightarrow>
       (truthy d \<and> truthy (prop_of (prop_of d ''amount'') ''amount'') \<longrightarrow>
          (\<exists>n. parseFloat (prop_of (prop_of d ''amount'') ''amount'') = Inr n \<and>
               field item ''discount'' = Some (Num n))) \<and>
       (\<not> (truthy d \<and> truthy (prop_of (prop_of d ''amount'') ''amount'')) \<longrightarrow>
          field item ''discount'' = None) \<and>
       field item ''coupon'' =
         (if truthy d \<and> truthy (prop_of (prop_of d ''discountApplication'') ''title'')
          then Some (prop_of (prop_of d ''discountApplication'') ''title'') else None))"
proof (intro conjI impI)
  let ?li = "if lineItem = Undefined then Null else lineItem"
  assume "nullish lineItem \<or> nullish (prop_of lineItem ''discountAllocations'') \<or>
          prop_of lineItem ''discountAllocations'' = Arr []"
  then have "nullish ?li \<or> nullish (prop_of ?li ''discountAllocations'') \<or>
          prop_of ?li ''discountAllocations'' = Arr []"
    by (auto simp: nullish_def)
  then have f: "first_discount_allocation ?li = Inr Undefined"
    by (rule first_discount_allocation_none)
  from formatItem_discount_fields(1) [OF assms f]
  show "field item ''discount'' = None" by simp
  from formatItem_discount_fields(2) [OF assms f]
  show "field item ''coupon'' = None" by simp
next
  let ?li = "if lineItem = Undefined then Null else lineItem"
  assume a: "prop_of lineItem ''discountAllocations'' = Arr (d # rest)"
  then have "lineItem \<noteq> Undefined"
    by (auto simp: prop_of_def get_prop_def)
  with a have f: "first_discount_allocation ?li = Inr d"
    by (simp add: first_discount_allocation_first)
  note df = formatItem_discount_fields [OF assms f]
  {
    assume t: "truthy d \<and> truthy (prop_of (prop_of d ''amount'') ''amount'')"
    with df(3) obtain n where "parseFloat (prop_of (prop_of d ''amount'') ''amount'') = Inr n"
      by blast
    with t df(1)
    show "\<exists>n. parseFloat (prop_of (prop_of d ''amount'') ''amount'') = Inr n \<and>
               field item ''discount'' = Some (Num n)"
      by simp
  }
  {
    assume "\<not> (truthy d \<and> truthy (prop_of (prop_of d ''amount'') ''amount''))"
    with df(1) show "field item ''discount'' = None" by simp
  }
  show "field item ''coupon'' =
         (if truthy d \<and> truthy (prop_of (prop_of d ''discountApplication'') ''title'')
          then Some (prop_of (prop_of d ''discountApplication'') ''title'') else None)"
    by (rule df(2))
qed

text \<open>A line with two allocations: the item takes its discount and its coupon from
  the first.\<close>

lemma discount_line_item:
  "formatItem shirt_variant (Num (Fin 2)) discount_line = Inr (Obj
    [(''item_id'', Str ''shopify_DE_p1_v1''),
     (''item_name'', Str ''Shirt''),
     (''item_variant'', Str ''Large''),
     (''item_brand'', Str ''Acme''),
     (''item_category'', Str ''Shirts''),
     (''price'', Num (Fin 10)),
     (''quantity'', Num (Fin 2)),
     (''item_category2'', Str ''Summer''),
     (''item_category3'', Str ''Sale''),
     (''discount'', Num (Fin (5 / 2))),
     (''coupon'', Str ''SAVE10'')])"
  by (simp add: discount_line_def shirt_variant_def shirt_product_def item_eval string_eval number_eval)

theorem formatItem_first_allocation_witness:
  "formatItem shirt_variant (Num (Fin 2)) discount_line = Inr (Obj
    [(''item_id'', Str ''shopify_DE_p1_v1''),
     (''item_name'', Str ''Shirt''),
     (''item_variant'', Str ''Large''),
     (''item_brand'', Str ''Acme''),
     (''item_category'', Str ''Shirts''),
     (''price'', Num (Fin 10)),
     (''quantity'', Num (Fin 2)),
     (''item_category2'', Str ''Summer''),
     (''item_category3'', Str ''Sale''),
     (''discount'', Num (Fin (5 / 2))),
     (''coupon'', Str ''SAVE10'')]) \<and>
   parseFloat (Str ''2.50'') = Inr (Fin (5 / 2)) \<and>
   field (Obj
    [(''item_id'', Str ''shopify_DE_p1_v1''),
     (''item_name'', Str ''Shirt''),
     (''item_variant'', Str ''Large''),
     (''item_brand'', Str ''Acme''),
     (''item_category'', Str ''Shirts''),
     (''price'', Num (Fin 10)),
     (''quantity'', Num (Fin 2)),
     (''item_category2'', Str ''Summer''),
     (''item_category3'', Str ''Sale''),
     (''discount'', Num (Fin (5 / 2))),
     (''coupon'', Str ''SAVE10'')]) ''coupon'' = Some (Str ''SAVE10'')"
proof -
  let ?d = "Obj [(''amount'', Obj [(''amount'', Str ''2.50''), (''currencyCode'', Str ''EUR'')]),
              (''discountApplication'', Obj [(''title'', Str ''SAVE10'')])]"
  let ?rest = "[Obj [(''amount'', Obj [(''amount'', Str ''1.00''), (''currencyCode'', Str ''EUR'')]),
              (''discountApplication'', Obj [(''title'', Str ''OTHER'')])]]"
  have a: "prop_of discount_line ''discountAllocations'' = Arr (?d # ?rest)"
    by (simp add: discount_line_def prop_of_def get_prop_def)
  have t: "truthy ?d" "prop_of (prop_of ?d ''amount'') ''amount'' = Str ''2.50''"
    "prop_of (prop_of ?d ''discountApplication'') ''title'' = Str ''SAVE10''"
    by (simp_all add: prop_of_def get_prop_def)
  show ?thesis
    using formatItem_first_allocation [OF discount_line_item, of ?d ?rest] a t discount_line_item
    by (simp add: parseFloat_def number_eval string_eval)
qed

text \<open>C8 as stated fails for a numeric amount that is zero: the first allocation has
  the amount 0 and a coupon title, and the item has the coupon and no discount.\<close>

theorem formatItem_zero_discount_counterexample:
  "first_discount_allocation zero_discount_line = Inr (Obj
     [(''amount'', Obj [(''amount'', Num (Fin 0)), (''currencyCode'', Str ''EUR'')]),
      (''discountApplication'', Obj [(''title'', Str ''FREESHIP'')])]) \<and>
   formatItem shirt_variant (Num (Fin 2)) zero_discount_line = Inr (Obj
    [(''item_id'', Str ''shopify_DE_p1_v1''),
     (''item_name'', Str ''Shirt''),
     (''item_variant'', Str ''Large''),
     (''item_brand'', Str ''Acme''),
     (''item_category'', Str ''Shirts''),
     (''price'', Num (Fin 10)),
     (''quantity'', Num (Fin 2)),
     (''item_category2'', Str ''Summer''),
     (''item_category3'', Str ''Sale''),
     (''coupon'', Str ''FREESHIP'')])"
  by (simp add: zero_discount_line_def shirt_variant_def shirt_product_def item_eval string_eval number_eval)

subsection \<open>A variant without product\<close>

lemma not_ends_with_longer: "\<not> ends_with p (a # b # c # p)"
  by (simp add: ends_with_def)

lemma cleanProductName_same:
  assumes "cleanProductName t t = Inr r"
  shows "r = t"
proof (cases "truthy t")
  case False
  with assms show ?thesis by (simp add: cleanProductName_def)
next
  case True
  with assms show ?thesis
    by (cases t) (auto simp: cleanProductName_def not_ends_with_longer bindE_eq_Inr)
qed

text \<open>
  C9. When the variant has no product (its \<open>product\<close> field is absent or otherwise
  falsy), the variant stands for the product: \<open>item_name\<close> is the variant's title,
  \<open>item_brand\<close> its vendor (or the fallback brand), \<open>item_category\<close> its type (or the
  empty string), the identity is that of \<open>createItemId\<close> applied to the variant twice, and
  when the SKU gives no identity this is \<open>shopify_DE\<close> followed by the variant's id twice.
\<close>

theorem formatItem_without_product:
  assumes "formatItem variant quantity lineItem = Inr item"
    and "\<not> truthy (prop_of variant ''product'')"
  shows "field item ''item_name'' = Some (prop_of variant ''title'') \<and>
    field item ''item_brand'' = Some (js_or (prop_of variant ''vendor'') (Str FALLBACK_BRAND)) \<and>
    field item ''item_category'' = Some (js_or (prop_of variant ''type'') (Str [])) \<and>
    (\<exists>item_id. createItemId variant variant = Inr item_id \<and>
       field item ''item_id'' = Some item_id) \<and>
    (\<not> truthy (prop_of variant ''sku'') \<or>
       (\<exists>s. prop_of variant ''sku'' = Str s \<and> trim s = []) \<longrightarrow>
       (\<exists>vs. to_string (prop_of variant ''id'') = Inr vs \<and>
          field item ''item_id'' = Some (Str (''shopify_DE_'' @ vs @ ''_'' @ vs))))"
proof -
  have p: "variant = js_or (prop_of variant ''product'') variant"
    using assms(2) by (simp add: js_or_def)
  from formatItem_base_fields [OF assms(1) p] obtain item_id item_name where
    id: "createItemId variant variant = Inr item_id"
    and name: "cleanProductName (prop_of variant ''title'') (prop_of variant ''title'') = Inr item_name"
    and f: "field item ''item_id'' = Some item_id"
      "field item ''item_name'' = Some item_name"
      "field item ''item_brand'' = Some (js_or (prop_of variant ''vendor'') (Str FALLBACK_BRAND))"
      "field item ''item_category'' = Some (js_or (prop_of variant ''type'') (Str []))"
    by blast
  from formatItem_Inr [OF assms(1)] have nn: "\<not> nullish variant" by blast
  have fallback: "\<exists>vs. to_string (prop_of variant ''id'') = Inr vs \<and>
          field item ''item_id'' = Some (Str (''shopify_DE_'' @ vs @ ''_'' @ vs))"
    if s: "\<not> truthy (prop_of variant ''sku'') \<or>
       (\<exists>s. prop_of variant ''sku'' = Str s \<and> trim s = [])"
  proof -
    have g: "get_prop variant ''sku'' = Inr (prop_of variant ''sku'')"
      "get_prop variant ''id'' = Inr (prop_of variant ''id'')"
      using nn by (simp_all add: get_prop_eq_Inr)
    from id [unfolded createItemId_fallback [OF g(1) s, of variant] g(2)]
    obtain vs where "to_string (prop_of variant ''id'') = Inr vs"
      and "item_id = Str (''shopify_DE_'' @ vs @ ''_'' @ vs)"
      by (auto simp: bindE_eq_Inr)
    with f(1) show ?thesis by simp
  qed
  from cleanProductName_same [OF name] f id fallback show ?thesis
    by blast
qed

text \<open>A variant with a numeric id, no SKU, no vendor and no product.\<close>

lemma mug_item:
  "formatItem mug_variant Undefined Undefined = Inr (Obj
    [(''item_id'', Str ''shopify_DE_42_42''),
     (''item_name'', Str ''Mug''),
     (''item_variant'', Str ''Mug''),
     (''item_brand'', Str ''Brand Name''),
     (''item_category'', Str ''Kitchen''),
     (''price'', Num (Fin (11 / 2))),
     (''quantity'', Num (Fin 1))])"
  by (simp add: mug_variant_def item_eval string_eval small_numbers_as_strings)

theorem formatItem_without_product_witness:
  "prop_of mug_variant ''product'' = Undefined \<and>
   prop_of mug_variant ''sku'' = Undefined \<and>
   to_string (prop_of mug_variant ''id'') = Inr ''42'' \<and>
   formatItem mug_variant Undefined Undefined = Inr (Obj
    [(''item_id'', Str ''shopify_DE_42_42''),
     (''item_name'', Str ''Mug''),
     (''item_variant'', Str ''Mug''),
     (''item_brand'', Str ''Brand Name''),
     (''item_category'', Str ''Kitchen''),
     (''price'', Num (Fin (11 / 2))),
     (''quantity'', Num (Fin 1))])"
proof -
  have 1: "prop_of mug_variant ''product'' = Undefined" "prop_of mug_variant ''sku'' = Undefined"
    "to_string (prop_of mug_variant ''id'') = Inr ''42''"
    by (simp_all add: mug_variant_def prop_of_def get_prop_def small_numbers_as_strings)
  then have 2: "\<not> truthy (prop_of mug_variant ''product'')" by simp
  from formatItem_without_product [OF mug_item 2] 1 mug_item show ?thesis
    by simp
qed

subsection \<open>The collection formatter\<close>

lemma map_e_eq_Inr:
  "map_e f xs = Inr ys \<longleftrightarrow>
     length ys = length xs \<and> (\<forall>i<length xs. f (xs ! i) = Inr (ys ! i))"
proof (induction xs arbitrary: ys)
  case Nil
  then show ?case by auto
next
  case (Cons x xs)
  show ?case
  proof (cases ys)
    case Nil
    then show ?thesis by (auto simp: bindE_eq_Inr)
  next
    case (Cons y ys')
    have "(\<forall>i<Suc (length xs). f ((x # xs) ! i) = Inr ((y # ys') ! i)) \<longleftrightarrow>
        f x = Inr y \<and> (\<forall>i<length xs. f (xs ! i) = Inr (ys' ! i))"
      by (auto simp: less_Suc_eq_0_disj)
    with Cons Cons.IH [of ys'] show ?thesis
      by (auto simp: bindE_eq_Inr)
  qed
qed

lemma format_line_eq:
  "format_line lineItem =
    (if nullish lineItem then Inl TypeError
     else formatItem (js_or (prop_of lineItem ''merchandise'') (prop_of lineItem ''variant''))
            (prop_of lineItem ''quantity'') lineItem)"
proof (cases "nullish lineItem")
  case True
  then show ?thesis
    by (auto simp: format_line_def nullish_def get_prop_def)
next
  case False
  then have "\<And>name. get_prop lineItem name = Inr (prop_of lineItem name)"
    by (simp add: get_prop_eq_Inr)
  with False show ?thesis
    by (simp add: format_line_def js_or_def)
qed

lemma formatItems_not_array: "\<not> is_array v \<Longrightarrow> formatItems v = Inr []"
  by (simp add: formatItems_def)

lemma formatItems_Arr: "formatItems (Arr ls) = map_e format_line ls"
  by (simp add: formatItems_def is_array_def)

text \<open>Well-formed input is formatted: no step of \<open>formatItem\<close> raises on it.\<close>

lemma to_string_primitive: "primitive v \<Longrightarrow> \<exists>s. to_string v = Inr s"
  by (cases v) (simp_all add: primitive_def)

lemma parseFloat_primitive: "primitive v \<Longrightarrow> \<exists>n. parseFloat v = Inr n"
  by (cases v) (simp_all add: primitive_def parseFloat_def)

lemma get_prop_total: "\<not> nullish v \<Longrightarrow> get_prop v name = Inr (prop_of v name)"
  by (simp add: get_prop_eq_Inr)

lemma get_index_total: "\<not> nullish v \<Longrightarrow> \<exists>x. get_index v i = Inr x"
  by (cases v) (simp_all add: get_index_def nullish_def)

lemma cleanProductName_total:
  assumes "opt_string pt" and "opt_string vt"
  shows "\<exists>r. cleanProductName pt vt = Inr r"
  using assms
  by (cases pt; cases vt) (simp_all add: opt_string_def cleanProductName_def Let_def)

lemma createItemId_total:
  assumes "\<not> nullish product" and "\<not> nullish variant"
    and "opt_string (prop_of variant ''sku'')"
    and "primitive (prop_of product ''id'')" and "primitive (prop_of variant ''id'')"
  shows "\<exists>r. createItemId product variant = Inr r"
proof -
  from to_string_primitive [OF assms(4)] to_string_primitive [OF assms(5)]
  obtain ps vs where "to_string (prop_of product ''id'') = Inr ps"
    "to_string (prop_of variant ''id'') = Inr vs"
    by blast
  with assms(1-3) show ?thesis
    by (cases "prop_of variant ''sku''")
      (simp_all add: createItemId_def get_prop_total opt_string_def)
qed

lemma add_category_total:
  assumes "\<not> nullish product"
  shows "\<exists>r. add_category product i key item = Inr r"
proof -
  let ?cs = "prop_of product ''collections''"
  show ?thesis
  proof (cases "nullish ?cs")
    case True
    with assms show ?thesis
      by (simp add: add_category_def collection_title_def get_prop_total)
  next
    case False
    from get_index_total [OF this] obtain c where "get_index ?cs i = Inr c" by blast
    with assms False show ?thesis
      by (simp add: add_category_def collection_title_def get_prop_total)
  qed
qed

lemma add_categories_total:
  assumes "\<not> nullish product"
  shows "\<exists>r. add_categories product item = Inr r"
proof -
  from add_category_total [OF assms] obtain c2 where
    2: "add_category product 0 ''item_category2'' item = Inr c2" by blast
  from add_category_total [OF assms] obtain c3 where
    3: "add_category product 1 ''item_category3'' c2 = Inr c3" by blast
  from add_category_total [OF assms] obtain c4 where
    4: "add_category product 2 ''item_category4'' c3 = Inr c4" by blast
  from add_category_total [OF assms] obtain c5 where
    5: "add_category product 3 ''item_category5'' c4 = Inr c5" by blast
  from 2 3 4 5 show ?thesis
    by (simp add: add_categories_def)
qed

lemma add_discount_total:
  assumes "discount_ok lineItem"
  shows "\<exists>r. add_discount lineItem item = Inr r"
proof -
  from first_discount_allocation_total obtain da where
    da: "first_discount_allocation lineItem = Inr da" by blast
  with assms have "primitive (prop_of (prop_of da ''amount'') ''amount'')"
    by (simp add: discount_ok_def first_allocation_of_def)
  from parseFloat_primitive [OF this] obtain n where
    "parseFloat (prop_of (prop_of da ''amount'') ''amount'') = Inr n" by blast
  then show ?thesis
    by (simp add: add_discount_unfold [OF da])
qed

lemma base_item_total:
  assumes "well_formed_variant variant"
    and "product = js_or (prop_of variant ''product'') variant"
  shows "\<not> nullish variant \<and> \<not> nullish product \<and>
    (\<exists>b. base_item product variant quantity = Inr b)"
proof -
  from assms(1) have wf: "opt_string (prop_of variant ''sku'')"
    "opt_string (prop_of variant ''title'')" "primitive (prop_of variant ''id'')"
    "\<not> nullish (prop_of variant ''price'')"
    "primitive (prop_of (prop_of variant ''price'') ''amount'')"
    by (simp_all add: well_formed_variant_def)
  from wf(4) have nv: "\<not> nullish variant"
    by (auto simp: nullish_def)
  have np: "\<not> nullish product"
    using nv assms(2) by (auto simp: js_or_def truthy_not_nullish)
  have pt: "opt_string (prop_of product ''title'')" and pid: "primitive (prop_of product ''id'')"
    using assms wf by (auto simp: js_or_def well_formed_variant_def split: if_splits)
  from createItemId_total [OF np nv wf(1) pid wf(3)] obtain item_id where
    "createItemId product variant = Inr item_id" by blast
  moreover from cleanProductName_total [OF pt wf(2)] obtain item_name where
    "cleanProductName (prop_of product ''title'') (prop_of variant ''title'') = Inr item_name"
    by blast
  moreover from parseFloat_primitive [OF wf(5)] obtain n where
    "parseFloat (prop_of (prop_of variant ''price'') ''amount'') = Inr n" by blast
  ultimately have "\<exists>b. base_item product variant quantity = Inr b"
    using nv np wf(4) by (simp add: base_item_def get_prop_total)
  with nv np show ?thesis by blast
qed

lemma formatItem_total:
  assumes "well_formed_variant variant"
    and "discount_ok (if lineItem = Undefined then Null else lineItem)"
  shows "\<exists>item. formatItem variant quantity lineItem = Inr item"
proof -
  let ?product = "js_or (prop_of variant ''product'') variant"
  from base_item_total [OF assms(1) refl] obtain b where
    nv: "\<not> nullish variant" and np: "\<not> nullish ?product"
    and b: "base_item ?product variant (if quantity = Undefined then Num (Fin 1) else quantity) = Inr b"
    by blast
  from add_categories_total [OF np] obtain c where c: "add_categories ?product b = Inr c"
    by blast
  from add_discount_total [OF assms(2)] obtain d where
    d: "add_discount (if lineItem = Undefined then Null else lineItem) c = Inr d"
    by blast
  from nv b c d show ?thesis
    by (simp add: formatItem_def get_prop_total Let_def)
qed

lemma format_line_total:
  assumes "well_formed_line lineItem"
  shows "\<exists>item. format_line lineItem = Inr item"
proof -
  from assms have n: "\<not> nullish lineItem" "lineItem \<noteq> Undefined"
    by (auto simp: well_formed_line_def nullish_def)
  with assms formatItem_total [of "js_or (prop_of lineItem ''merchandise'') (prop_of lineItem ''variant'')"
      lineItem "prop_of lineItem ''quantity''"]
  show ?thesis
    by (simp add: format_line_eq well_formed_line_def)
qed

lemma map_e_total:
  "(\<forall>x\<in>set xs. \<exists>y. f x = Inr y) \<Longrightarrow> \<exists>ys. map_e f xs = Inr ys"
  by (induction xs) auto

text \<open>
  C4. On anything that is not an array (\<^verbatim>\<open>undefined\<close>, a string, ...) \<open>formatItems\<close>
  returns the empty list and raises nothing. On an array of lines it returns \<open>items\<close>
  exactly when \<open>items\<close> is as long as the array and its element at each position is what
  \<open>formatItem\<close> returns for that line's variant (\<open>merchandise\<close>, else \<open>variant\<close>), the line's
  quantity and the line itself as context; so order and length are kept. When every
  line is well formed, the result exists.
\<close>

theorem formatItems_contract:
  "(\<not> is_array v \<longrightarrow> formatItems v = Inr []) \<and>
   (formatItems (Arr ls) = Inr items \<longleftrightarrow>
      length items = length ls \<and>
      (\<forall>i<length ls. \<not> nullish (ls ! i) \<and>
         formatItem (js_or (prop_of (ls ! i) ''merchandise'') (prop_of (ls ! i) ''variant''))
           (prop_of (ls ! i) ''quantity'') (ls ! i) = Inr (items ! i))) \<and>
   ((\<forall>l\<in>set ls. well_formed_line l) \<longrightarrow>
      (\<exists>items. formatItems (Arr ls) = Inr items \<and> length items = length ls))"
proof (intro conjI impI)
  show "formatItems v = Inr []" if "\<not> is_array v"
    using that by (rule formatItems_not_array)
  have "format_line l = Inr x \<longleftrightarrow> \<not> nullish l \<and>
      formatItem (js_or (prop_of l ''merchandise'') (prop_of l ''variant''))
           (prop_of l ''quantity'') l = Inr x" for l x
    by (simp add: format_line_eq)
  then show "formatItems (Arr ls) = Inr items \<longleftrightarrow>
      length items = length ls \<and>
      (\<forall>i<length ls. \<not> nullish (ls ! i) \<and>
         formatItem (js_or (prop_of (ls ! i) ''merchandise'') (prop_of (ls ! i) ''variant''))
           (prop_of (ls ! i) ''quantity'') (ls ! i) = Inr (items ! i))"
    by (simp add: formatItems_Arr map_e_eq_Inr)
  show "\<exists>items. formatItems (Arr ls) = Inr items \<and> length items = length ls"
    if "\<forall>l\<in>set ls. well_formed_line l"
  proof -
    from that have "\<forall>l\<in>set ls. \<exists>y. format_line l = Inr y"
      by (blast dest: format_line_total)
    then obtain ys where ys: "map_e format_line ls = Inr ys"
      by (blast dest: map_e_total)
    then have "length ys = length ls"
      by (simp add: map_e_eq_Inr)
    with ys show ?thesis
      by (simp add: formatItems_Arr)
  qed
qed

text \<open>Two lines, a cart line and a checkout line, and the two inputs that are no
  arrays.\<close>

lemma mug_line_item:
  "formatItem mug_variant (Num (Fin 1)) mug_line = Inr (Obj
    [(''item_id'', Str ''shopify_DE_42_42''),
     (''item_name'', Str ''Mug''),
     (''item_variant'', Str ''Mug''),
     (''item_brand'', Str ''Brand Name''),
     (''item_category'', Str ''Kitchen''),
     (''price'', Num (Fin (11 / 2))),
     (''quantity'', Num (Fin 1))])"
  by (simp add: mug_line_def mug_variant_def item_eval string_eval small_numbers_as_strings)

lemma line_variants:
  "js_or (prop_of discount_line ''merchandise'') (prop_of discount_line ''variant'') = shirt_variant"
  "prop_of discount_line ''quantity'' = Num (Fin 2)"
  "js_or (prop_of mug_line ''merchandise'') (prop_of mug_line ''variant'') = mug_variant"
  "prop_of mug_line ''quantity'' = Num (Fin 1)"
  "\<not> nullish discount_line" "\<not> nullish mug_line"
  by (simp_all add: discount_line_def mug_line_def shirt_variant_def mug_variant_def
      prop_of_def get_prop_def js_or_def nullish_def)

lemma example_lines_well_formed: "well_formed_line discount_line" "well_formed_line mug_line"
  by (simp_all add: well_formed_line_def well_formed_variant_def discount_ok_def
      first_allocation_of_def first_discount_allocation_def primitive_def opt_string_def
      discount_line_def mug_line_def shirt_variant_def shirt_product_def mug_variant_def
      prop_of_def get_prop_def get_index_def js_or_def nullish_def)

theorem formatItems_contract_witness:
  "well_formed_line discount_line \<and> well_formed_line mug_line \<and>
   formatItems Undefined = Inr [] \<and>
   formatItems (Str ''not-an-array'') = Inr [] \<and>
   formatItems (Arr [discount_line, mug_line]) = Inr
     [Obj [(''item_id'', Str ''shopify_DE_p1_v1''),
           (''item_name'', Str ''Shirt''),
           (''item_variant'', Str ''Large''),
           (''item_brand'', Str ''Acme''),
           (''item_category'', Str ''Shirts''),
           (''price'', Num (Fin 10)),
           (''quantity'', Num (Fin 2)),
           (''item_category2'', Str ''Summer''),
           (''item_category3'', Str ''Sale''),
           (''discount'', Num (Fin (5 / 2))),
           (''coupon'', Str ''SAVE10'')],
      Obj [(''item_id'', Str ''shopify_DE_42_42''),
           (''item_name'', Str ''Mug''),
           (''item_variant'', Str ''Mug''),
           (''item_brand'', Str ''Brand Name''),
           (''item_category'', Str ''Kitchen''),
           (''price'', Num (Fin (11 / 2))),
           (''quantity'', Num (Fin 1))]]"
proof -
  let ?a = "Obj [(''item_id'', Str ''shopify_DE_p1_v1''),
           (''item_name'', Str ''Shirt''),
           (''item_variant'', Str ''Large''),
           (''item_brand'', Str ''Acme''),
           (''item_category'', Str ''Shirts''),
           (''price'', Num (Fin 10)),
           (''quantity'', Num (Fin 2)),
           (''item_category2'', Str ''Summer''),
           (''item_category3'', Str ''Sale''),
           (''discount'', Num (Fin (5 / 2))),
           (''coupon'', Str ''SAVE10'')]"
  let ?b = "Obj [(''item_id'', Str ''shopify_DE_42_42''),
           (''item_name'', Str ''Mug''),
           (''item_variant'', Str ''Mug''),
           (''item_brand'', Str ''Brand Name''),
           (''item_category'', Str ''Kitchen''),
           (''price'', Num (Fin (11 / 2))),
           (''quantity'', Num (Fin 1))]"
  have "\<forall>i<length [discount_line, mug_line]. \<not> nullish ([discount_line, mug_line] ! i) \<and>
         formatItem (js_or (prop_of ([discount_line, mug_line] ! i) ''merchandise'')
                       (prop_of ([discount_line, mug_line] ! i) ''variant''))
           (prop_of ([discount_line, mug_line] ! i) ''quantity'') ([discount_line, mug_line] ! i)
         = Inr ([?a, ?b] ! i)"
    using discount_line_item mug_line_item
    by (simp add: less_Suc_eq_0_disj line_variants del: One_nat_def)
  then have "formatItems (Arr [discount_line, mug_line]) = Inr [?a, ?b]"
    using formatItems_contract [of Undefined "[discount_line, mug_line]" "[?a, ?b]"]
    by simp
  moreover have "formatItems Undefined = Inr []"
    using formatItems_contract [of Undefined] by (simp add: is_array_def)
  moreover have "formatItems (Str ''not-an-array'') = Inr []"
    using formatItems_contract [of "Str ''not-an-array''"] by (simp add: is_array_def)
  ultimately show ?thesis
    using example_lines_well_formed by simp
qed

subsection \<open>Dispatch\<close>

lemma sendEvent_returns: "fst (sendEvent eventName params w) = Inr ()"
  by (simp add: sendEvent_def sendEvent_try_def split: option.splits prod.splits sum.splits)

lemma sendEvent_gtag: "gtag (snd (sendEvent eventName params w)) = gtag w"
  by (auto simp: sendEvent_def sendEvent_try_def Let_def split: option.splits)

lemma sendEvent_calls:
  "sink_calls (snd (sendEvent eventName params w)) =
     (case gtag w of Some f \<Rightarrow> sink_calls w @ [(eventName, params)] | None \<Rightarrow> sink_calls w)"
  by (auto simp: sendEvent_def sendEvent_try_def Let_def split: option.splits)

subsection \<open>The value of a viewed cart\<close>

lemma bindE_assoc: "bindE (bindE m f) g = bindE m (\<lambda>x. bindE (f x) g)"
  by (cases m) simp_all

lemma reduce_value_eq:
  "reduce_value items acc = bindE (map_e line_total items) (\<lambda>ts. Inr (foldl num_add acc ts))"
proof (induction items arbitrary: acc)
  case Nil
  then show ?case by simp
next
  case (Cons item items)
  show ?case
  proof (cases "line_total item")
    case (Inl e)
    then show ?thesis
      by (auto simp: line_total_def bindE_def split: sum.splits)
  next
    case (Inr t)
    then have "reduce_value (item # items) acc = reduce_value items (num_add acc t)"
      by (auto simp: line_total_def bindE_def split: sum.splits)
    with Inr Cons.IH [of "num_add acc t"] show ?thesis
      by (cases "map_e line_total items") simp_all
  qed
qed

lemma cart_viewed_payload_lines:
  assumes "prop_of (prop_of (prop_of event ''data'') ''cart'') ''lines'' = Arr ls"
  shows "cart_viewed_payload event =
    bindE (formatItems (Arr ls)) (\<lambda>items.
    bindE (map_e line_total items) (\<lambda>totals.
      Inr (Some (Obj [(''currency'', Str CURRENCY),
                      (''value'', Num (foldl num_add (Fin 0) totals)),
                      (''items'', Arr items)]))))"
proof -
  let ?data = "prop_of event ''data''" and ?cart = "prop_of (prop_of event ''data'') ''cart''"
  have 1: "\<not> nullish ?cart"
    using assms by (auto simp: nullish_def prop_of_def get_prop_def)
  then have 2: "\<not> nullish ?data"
    by (auto simp: nullish_def prop_of_def get_prop_def)
  then have 3: "\<not> nullish event"
    by (auto simp: nullish_def prop_of_def get_prop_def)
  have t: "truthy ?cart"
    using assms by (cases ?cart) (auto simp: prop_of_def get_prop_def)
  have g: "get_prop event ''data'' = Inr ?data" "get_prop ?data ''cart'' = Inr ?cart"
    "get_prop ?cart ''lines'' = Inr (Arr ls)"
    using 1 2 3 assms by (simp_all add: get_prop_eq_Inr)
  show ?thesis
    by (simp add: cart_viewed_payload_def g t reduce_value_eq bindE_assoc)
qed

text \<open>
  C5. For a cart-viewed event whose cart lines are an array that \<open>formatItems\<close> turns
  into \<open>items\<close>, with \<open>totals\<close> the products price times quantity of these formatted items
  in order, the listener returns normally and makes one call to the sink: the event
  \<open>view_cart\<close> whose payload has the configured currency, these items, and as value the
  sum of \<open>totals\<close>, added from the left starting at 0. The products and the sum are
  those of doubles: each is rounded.
\<close>

theorem cart_viewed_value:
  assumes "prop_of (prop_of (prop_of event ''data'') ''cart'') ''lines'' = Arr ls"
    and "formatItems (Arr ls) = Inr items"
    and "map_e line_total items = Inr totals"
    and "gtag w = Some f"
  shows "fst (cart_viewed event w) = Inr () \<and>
    sink_calls (snd (cart_viewed event w)) = sink_calls w @
      [(''view_cart'', Obj [(''currency'', Str CURRENCY),
                           (''value'', Num (foldl num_add (Fin 0) totals)),
                           (''items'', Arr items)])]"
  using assms(2-4)
  by (simp add: cart_viewed_def cart_viewed_payload_lines [OF assms(1)]
      sendEvent_returns sendEvent_calls)

text \<open>The cart of the specification's example: 10.00 twice and 5.50 once give 25.50.\<close>

lemma cart_items:
  "formatItems (Arr [discount_line, mug_line]) = Inr
     [Obj [(''item_id'', Str ''shopify_DE_p1_v1''),
           (''item_name'', Str ''Shirt''),
           (''item_variant'', Str ''Large''),
           (''item_brand'', Str ''Acme''),
           (''item_category'', Str ''Shirts''),
           (''price'', Num (Fin 10)),
           (''quantity'', Num (Fin 2)),
           (''item_category2'', Str ''Summer''),
           (''item_category3'', Str ''Sale''),
           (''discount'', Num (Fin (5 / 2))),
           (''coupon'', Str ''SAVE10'')],
      Obj [(''item_id'', Str ''shopify_DE_42_42''),
           (''item_name'', Str ''Mug''),
           (''item_variant'', Str ''Mug''),
           (''item_brand'', Str ''Brand Name''),
           (''item_category'', Str ''Kitchen''),
           (''price'', Num (Fin (11 / 2))),
           (''quantity'', Num (Fin 1))]]"
  using discount_line_item mug_line_item
  by (simp add: formatItems_Arr format_line_eq line_variants)

theorem cart_viewed_value_witness:
  "fst (cart_viewed cart_event quiet_world) = Inr () \<and>
   map fst (sink_calls (snd (cart_viewed cart_event quiet_world))) = [''view_cart''] \<and>
   map (\<lambda>c. field (snd c) ''value'') (sink_calls (snd (cart_viewed cart_event quiet_world)))
     = [Some (Num (Fin (51 / 2)))]"
proof -
  have l: "prop_of (prop_of (prop_of cart_event ''data'') ''cart'') ''lines''
      = Arr [discount_line, mug_line]"
    by (simp add: cart_event_def prop_of_def get_prop_def)
  have t: "map_e line_total
     [Obj [(''item_id'', Str ''shopify_DE_p1_v1''),
           (''item_name'', Str ''Shirt''),
           (''item_variant'', Str ''Large''),
           (''item_brand'', Str ''Acme''),
           (''item_category'', Str ''Shirts''),
           (''price'', Num (Fin 10)),
           (''quantity'', Num (Fin 2)),
           (''item_category2'', Str ''Summer''),
           (''item_category3'', Str ''Sale''),
           (''discount'', Num (Fin (5 / 2))),
           (''coupon'', Str ''SAVE10'')],
      Obj [(''item_id'', Str ''shopify_DE_42_42''),
           (''item_name'', Str ''Mug''),
           (''item_variant'', Str ''Mug''),
           (''item_brand'', Str ''Brand Name''),
           (''item_category'', Str ''Kitchen''),
           (''price'', Num (Fin (11 / 2))),
           (''quantity'', Num (Fin 1))]] = Inr [Fin 20, Fin (11 / 2)]"
    by (simp add: line_total_def get_prop_def js_mul_def to_number_def exact_doubles)
  have g: "gtag quiet_world = Some (\<lambda>calls eventName params. None)"
    "sink_calls quiet_world = []"
    by (simp_all add: quiet_world_def)
  from cart_viewed_value [OF l cart_items t g(1)] g(2) show ?thesis
    by (simp add: exact_doubles)
qed

text \<open>
  A line at 0.1, three times: the price is the double nearest to 0.1, the product is
  rounded again, and the value sent is the double that JavaScript prints as
  0.30000000000000004, not 3/10.
\<close>

lemma tenth_parsed: "parse_float ''0.1'' = Fin (3602879701896397 / 36028797018963968)"
proof -
  have "parse_float ''0.1'' = round_double (1 / 10)"
    by (simp add: number_eval string_eval)
  then show ?thesis
    by (simp add: round_eval)
qed

lemma sticker_item:
  "formatItem sticker_variant (Num (Fin 3)) sticker_line = Inr (Obj
    [(''item_id'', Str ''shopify_DE_7_7''),
     (''item_name'', Str ''Sticker''),
     (''item_variant'', Str ''Sticker''),
     (''item_brand'', Str ''Brand Name''),
     (''item_category'', Str []),
     (''price'', Num (Fin (3602879701896397 / 36028797018963968))),
     (''quantity'', Num (Fin 3))])"
  by (simp add: sticker_line_def sticker_variant_def item_eval string_eval
      small_numbers_as_strings tenth_parsed)

lemma sticker_total:
  "line_total (Obj
    [(''item_id'', Str ''shopify_DE_7_7''),
     (''item_name'', Str ''Sticker''),
     (''item_variant'', Str ''Sticker''),
     (''item_brand'', Str ''Brand Name''),
     (''item_category'', Str []),
     (''price'', Num (Fin (3602879701896397 / 36028797018963968))),
     (''quantity'', Num (Fin 3))]) = Inr (Fin (1351079888211149 / 4503599627370496))"
  by (simp add: line_total_def get_prop_def js_mul_def to_number_def round_eval)

lemma sticker_sum:
  "round_double (1351079888211149 / 4503599627370496)
     = Fin (1351079888211149 / 4503599627370496)"
  by (simp add: round_eval)

lemma sticker_cart_value:
  "map (\<lambda>c. field (snd c) ''value'') (sink_calls (snd (cart_viewed sticker_event quiet_world)))
     = [Some (Num (Fin (1351079888211149 / 4503599627370496)))]"
proof -
  have l: "prop_of (prop_of (prop_of sticker_event ''data'') ''cart'') ''lines''
      = Arr [sticker_line]"
    by (simp add: sticker_event_def prop_of_def get_prop_def)
  have v: "js_or (prop_of sticker_line ''merchandise'') (prop_of sticker_line ''variant'')
      = sticker_variant" "prop_of sticker_line ''quantity'' = Num (Fin 3)"
    "\<not> nullish sticker_line"
    by (simp_all add: sticker_line_def sticker_variant_def prop_of_def get_prop_def js_or_def
        nullish_def)
  have i: "formatItems (Arr [sticker_line]) = Inr [Obj
    [(''item_id'', Str ''shopify_DE_7_7''),
     (''item_name'', Str ''Sticker''),
     (''item_variant'', Str ''Sticker''),
     (''item_brand'', Str ''Brand Name''),
     (''item_category'', Str []),
     (''price'', Num (Fin (3602879701896397 / 36028797018963968))),
     (''quantity'', Num (Fin 3))]]"
    using sticker_item by (simp add: formatItems_Arr format_line_eq v)
  show ?thesis
    unfolding cart_viewed_def cart_viewed_payload_lines [OF l] i
    by (simp add: sticker_total sticker_sum sendEvent_calls quiet_world_def field_def)
qed

lemma sticker_value_string:
  "number_to_string (Fin (1351079888211149 / 4503599627370496)) = ''0.30000000000000004''"
  by (simp add: number_string_eval)

subsection \<open>A cart-viewed event without cart\<close>

text \<open>
  C10. When the data of a cart-viewed event has no cart (\<^verbatim>\<open>undefined\<close> or \<^verbatim>\<open>null\<close>), or
  the cart has no \<open>lines\<close> field, the listener returns normally and leaves the browser
  as it was: the sink is not called and nothing is logged.
\<close>

theorem cart_viewed_without_cart:
  assumes "get_prop event ''data'' = Inr data" and "\<not> nullish data"
    and "nullish (prop_of data ''cart'') \<or> prop_of (prop_of data ''cart'') ''lines'' = Undefined"
  shows "cart_viewed event w = (Inr (), w)"
proof -
  let ?cart = "prop_of data ''cart''"
  have g: "get_prop data ''cart'' = Inr ?cart"
    using assms(2) by (simp add: get_prop_eq_Inr)
  have "cart_viewed_payload event = Inr None"
  proof (cases "truthy ?cart")
    case False
    with assms(1) g show ?thesis
      by (simp add: cart_viewed_payload_def)
  next
    case True
    then have "\<not> nullish ?cart" by (rule truthy_not_nullish)
    with assms(3) have "get_prop ?cart ''lines'' = Inr Undefined"
      by (simp add: get_prop_eq_Inr)
    with assms(1) g True show ?thesis
      by (simp add: cart_viewed_payload_def)
  qed
  then show ?thesis by (simp add: cart_viewed_def)
qed

theorem cart_viewed_without_cart_witness:
  "cart_viewed (Obj [(''data'', Obj [])]) quiet_world = (Inr (), quiet_world) \<and>
   cart_viewed (Obj [(''data'', Obj [(''cart'', Null)])]) quiet_world = (Inr (), quiet_world) \<and>
   cart_viewed (Obj [(''data'', Obj [(''cart'', Obj [(''id'', Str ''c1'')])])]) quiet_world
     = (Inr (), quiet_world)"
proof -
  have 1: "get_prop (Obj [(''data'', Obj [])]) ''data'' = Inr (Obj [])"
    "\<not> nullish (Obj [])" "nullish (prop_of (Obj []) ''cart'')"
    by (simp_all add: get_prop_def prop_of_def nullish_def)
  have 2: "get_prop (Obj [(''data'', Obj [(''cart'', Null)])]) ''data'' = Inr (Obj [(''cart'', Null)])"
    "\<not> nullish (Obj [(''cart'', Null)])" "nullish (prop_of (Obj [(''cart'', Null)]) ''cart'')"
    by (simp_all add: get_prop_def prop_of_def nullish_def)
  have 3: "get_prop (Obj [(''data'', Obj [(''cart'', Obj [(''id'', Str ''c1'')])])]) ''data''
       = Inr (Obj [(''cart'', Obj [(''id'', Str ''c1'')])])"
    "\<not> nullish (Obj [(''cart'', Obj [(''id'', Str ''c1'')])])"
    "prop_of (prop_of (Obj [(''cart'', Obj [(''id'', Str ''c1'')])]) ''cart'') ''lines'' = Undefined"
    by (simp_all add: get_prop_def prop_of_def nullish_def)
  show ?thesis
    using cart_viewed_without_cart [OF 1(1,2) disjI1 [OF 1(3)], of quiet_world]
      cart_viewed_without_cart [OF 2(1,2) disjI1 [OF 2(3)], of quiet_world]
      cart_viewed_without_cart [OF 3(1,2) disjI2 [OF 3(3)], of quiet_world]
    by simp
qed

subsection \<open>Failure isolation\<close>

lemma sendEvent_console_fault:
  assumes "gtag w = Some f" and "f (sink_calls w) eventName params = Some e"
  shows "console (snd (sendEvent eventName params w)) =
    console w @ [ConsoleError (''[Web Pixel] '' @ eventName) (Thrown e)]"
  using assms by (simp add: sendEvent_def sendEvent_try_def Let_def)

text \<open>
  C7. Whatever the event name, the payload and the sink \<open>f\<close>, also one that throws,
  \<open>sendEvent\<close> returns normally; a value the sink throws is logged to the console as an
  error. A second dispatch after the first returns normally too and reaches the sink:
  the sink has then been called with both events, in order. A listener whose own code
  raises nothing therefore returns normally, whatever the sink does.
\<close>

theorem sendEvent_isolates_faults:
  "fst (sendEvent n1 p1 w) = Inr () \<and>
   fst (sendEvent n2 p2 (snd (sendEvent n1 p1 w))) = Inr () \<and>
   (gtag w = Some f \<longrightarrow>
      sink_calls (snd (sendEvent n2 p2 (snd (sendEvent n1 p1 w)))) =
        sink_calls w @ [(n1, p1), (n2, p2)]) \<and>
   (gtag w = Some f \<longrightarrow> f (sink_calls w) n1 p1 = Some e \<longrightarrow>
      console (snd (sendEvent n1 p1 w)) =
        console w @ [ConsoleError (''[Web Pixel] '' @ n1) (Thrown e)]) \<and>
   (cart_viewed_payload event = Inr p \<longrightarrow> fst (cart_viewed event w) = Inr ()) \<and>
   (checkout_completed_payload event' = Inr p' \<longrightarrow>
      fst (checkout_completed event' w) = Inr ())"
proof (intro conjI impI)
  show "fst (sendEvent n1 p1 w) = Inr ()"
    by (rule sendEvent_returns)
  show "fst (sendEvent n2 p2 (snd (sendEvent n1 p1 w))) = Inr ()"
    by (rule sendEvent_returns)
  show "sink_calls (snd (sendEvent n2 p2 (snd (sendEvent n1 p1 w)))) =
        sink_calls w @ [(n1, p1), (n2, p2)]" if "gtag w = Some f"
    using that by (simp add: sendEvent_calls sendEvent_gtag)
  show "console (snd (sendEvent n1 p1 w)) =
        console w @ [ConsoleError (''[Web Pixel] '' @ n1) (Thrown e)]"
    if "gtag w = Some f" "f (sink_calls w) n1 p1 = Some e"
    using that by (rule sendEvent_console_fault)
  show "fst (cart_viewed event w) = Inr ()" if "cart_viewed_payload event = Inr p"
    using that by (cases p) (simp_all add: cart_viewed_def sendEvent_returns)
  show "fst (checkout_completed event' w) = Inr ()"
    if "checkout_completed_payload event' = Inr p'"
    using that by (simp add: checkout_completed_def sendEvent_returns)
qed

text \<open>Two dispatches to a sink that throws on every call.\<close>

theorem sendEvent_isolates_faults_witness:
  "gtag faulty_world = Some (\<lambda>calls eventName params. Some (Str ''sink down'')) \<and>
   fst (sendEvent ''view_cart'' (Obj []) faulty_world) = Inr () \<and>
   console (snd (sendEvent ''view_cart'' (Obj []) faulty_world)) =
     [ConsoleError ''[Web Pixel] view_cart'' (Thrown (Str ''sink down''))] \<and>
   fst (sendEvent ''purchase'' (Obj []) (snd (sendEvent ''view_cart'' (Obj []) faulty_world)))
     = Inr () \<and>
   sink_calls (snd (sendEvent ''purchase'' (Obj []) (snd (sendEvent ''view_cart'' (Obj []) faulty_world))))
     = [(''view_cart'', Obj []), (''purchase'', Obj [])]"
proof -
  have g: "gtag faulty_world = Some (\<lambda>calls eventName params. Some (Str ''sink down''))"
    "sink_calls faulty_world = []" "console faulty_world = []"
    by (simp_all add: faulty_world_def)
  from sendEvent_isolates_faults [of "''view_cart''" "Obj []" faulty_world "''purchase''" "Obj []"
      "\<lambda>calls eventName params. Some (Str ''sink down'')" "Str ''sink down''"] g
  show ?thesis by simp
qed

subsection \<open>The purchase payload\<close>

lemma shipping_chain:
  assumes "(if nullish sl then Inr Undefined
            else bindE (get_prop sl ''price'') (\<lambda>price. get_prop price ''amount'')) = Inr x"
  shows "x = prop_of (prop_of sl ''price'') ''amount''"
  using assms by (auto simp: bindE_eq_Inr get_prop_eq_Inr split: if_splits)

lemma checkout_completed_payload_Inr:
  assumes "checkout_completed_payload event = Inr payload"
    and "checkout = prop_of (prop_of event ''data'') ''checkout''"
  shows "\<exists>items tid value tax shipping cv.
    formatItems (prop_of checkout ''lineItems'') = Inr items \<and>
    call_toString (prop_of (prop_of checkout ''order'') ''id'') = Inr tid \<and>
    parseFloat (prop_of (prop_of checkout ''totalPrice'') ''amount'') = Inr value \<and>
    parseFloat (js_or (prop_of (prop_of checkout ''totalTax'') ''amount'') (Num (Fin 0))) = Inr tax \<and>
    parseFloat (js_or (prop_of (prop_of (prop_of checkout ''shippingLine'') ''price'') ''amount'')
                  (Num (Fin 0))) = Inr shipping \<and>
    payload = Obj (put ''coupon'' cv
      [(''transaction_id'', Str tid),
       (''currency'', js_or (prop_of checkout ''currencyCode'') (Str CURRENCY)),
       (''value'', Num value),
       (''tax'', Num tax),
       (''shipping'', Num shipping),
       (''items'', Arr items)])"
proof -
  from assms(1) obtain items tid "value" tax sa shipping coupon where
    1: "formatItems (prop_of checkout ''lineItems'') = Inr items"
    and 2: "call_toString (prop_of (prop_of checkout ''order'') ''id'') = Inr tid"
    and 3: "parseFloat (prop_of (prop_of checkout ''totalPrice'') ''amount'') = Inr value"
    and 4: "parseFloat (js_or (prop_of (prop_of checkout ''totalTax'') ''amount'') (Num (Fin 0))) = Inr tax"
    and 5: "(if nullish (prop_of checkout ''shippingLine'') then Inr Undefined
            else bindE (get_prop (prop_of checkout ''shippingLine'') ''price'')
              (\<lambda>price. get_prop price ''amount'')) = Inr sa"
    and 6: "parseFloat (js_or sa (Num (Fin 0))) = Inr shipping"
    and 7: "payload = Obj (if truthy coupon then AList.update ''coupon'' coupon
      [(''transaction_id'', Str tid),
       (''currency'', js_or (prop_of checkout ''currencyCode'') (Str CURRENCY)),
       (''value'', Num value),
       (''tax'', Num tax),
       (''shipping'', Num shipping),
       (''items'', Arr items)]
     else [(''transaction_id'', Str tid),
       (''currency'', js_or (prop_of checkout ''currencyCode'') (Str CURRENCY)),
       (''value'', Num value),
       (''tax'', Num tax),
       (''shipping'', Num shipping),
       (''items'', Arr items)])"
    unfolding checkout_completed_payload_def bindE_eq_Inr get_prop_eq_Inr opt_chain assms(2) Let_def
    by blast
  from 7 have "payload = Obj (put ''coupon'' (if truthy coupon then Some coupon else None)
      [(''transaction_id'', Str tid),
       (''currency'', js_or (prop_of checkout ''currencyCode'') (Str CURRENCY)),
       (''value'', Num value),
       (''tax'', Num tax),
       (''shipping'', Num shipping),
       (''items'', Arr items)])"
    by (simp add: put_def)
  with 1 2 3 4 6 shipping_chain [OF 5] show ?thesis
    by blast
qed


lemma checkout_completed_payload_fields:
  assumes "checkout_completed_payload event = Inr payload"
    and "checkout = prop_of (prop_of event ''data'') ''checkout''"
  shows "(\<exists>s. call_toString (prop_of (prop_of checkout ''order'') ''id'') = Inr s \<and>
       field payload ''transaction_id'' = Some (Str s)) \<and>
    (prop_of (prop_of checkout ''order'') ''id'' = Num n \<longrightarrow>
       field payload ''transaction_id'' = Some (Str (number_to_string n))) \<and>
    (nullish (prop_of checkout ''totalTax'') \<or>
     nullish (prop_of (prop_of checkout ''totalTax'') ''amount'') \<longrightarrow>
       field payload ''tax'' = Some (Num (Fin 0))) \<and>
    (nullish (prop_of checkout ''shippingLine'') \<or>
     nullish (prop_of (prop_of (prop_of checkout ''shippingLine'') ''price'') ''amount'') \<longrightarrow>
       field payload ''shipping'' = Some (Num (Fin 0))) \<and>
    (gtag w = Some f \<longrightarrow>
       fst (checkout_completed event w) = Inr () \<and>
       sink_calls (snd (checkout_completed event w)) = sink_calls w @ [(''purchase'', payload)])"
proof -
  let ?id = "prop_of (prop_of checkout ''order'') ''id''"
  let ?tax = "prop_of (prop_of checkout ''totalTax'') ''amount''"
  let ?ship = "prop_of (prop_of (prop_of checkout ''shippingLine'') ''price'') ''amount''"
  from checkout_completed_payload_Inr [OF assms] obtain items tid "value" tax shipping cv where
    tid: "call_toString ?id = Inr tid"
    and tax: "parseFloat (js_or ?tax (Num (Fin 0))) = Inr tax"
    and shipping: "parseFloat (js_or ?ship (Num (Fin 0))) = Inr shipping"
    and payload: "payload = Obj (put ''coupon'' cv
      [(''transaction_id'', Str tid),
       (''currency'', js_or (prop_of checkout ''currencyCode'') (Str CURRENCY)),
       (''value'', Num value),
       (''tax'', Num tax),
       (''shipping'', Num shipping),
       (''items'', Arr items)])"
    by blast
  have f: "field payload ''transaction_id'' = Some (Str tid)"
    "field payload ''tax'' = Some (Num tax)" "field payload ''shipping'' = Some (Num shipping)"
    unfolding payload by (simp_all add: map_of_put)
  have zero: "parseFloat (js_or x (Num (Fin 0))) = Inr (Fin 0)" if "nullish x" for x
    using that by (auto simp: nullish_def js_or_def parseFloat_def)
  have 1: "\<exists>s. call_toString ?id = Inr s \<and> field payload ''transaction_id'' = Some (Str s)"
    using tid f(1) by blast
  have 2: "field payload ''transaction_id'' = Some (Str (number_to_string n))" if "?id = Num n"
    using tid f(1) that by (simp add: call_toString_def nullish_def)
  have 3: "field payload ''tax'' = Some (Num (Fin 0))"
    if "nullish (prop_of checkout ''totalTax'') \<or> nullish ?tax"
  proof -
    from that have "nullish ?tax" by (auto simp: nullish_def)
    from zero [OF this] tax f(2) show ?thesis by simp
  qed
  have 4: "field payload ''shipping'' = Some (Num (Fin 0))"
    if "nullish (prop_of checkout ''shippingLine'') \<or> nullish ?ship"
  proof -
    from that have "nullish ?ship" by (auto simp: nullish_def)
    from zero [OF this] shipping f(3) show ?thesis by simp
  qed
  have 5: "fst (checkout_completed event w) = Inr () \<and>
       sink_calls (snd (checkout_completed event w)) = sink_calls w @ [(''purchase'', payload)]"
    if "gtag w = Some f"
    using that assms(1) by (simp add: checkout_completed_def sendEvent_returns sendEvent_calls)
  from 1 2 3 4 5 show ?thesis by blast
qed

lemma formatItems_total:
  assumes "case v of Arr ls \<Rightarrow> list_all well_formed_line ls | _ \<Rightarrow> True"
  shows "\<exists>items. formatItems v = Inr items"
proof (cases "is_array v")
  case False
  then show ?thesis by (simp add: formatItems_not_array)
next
  case True
  then obtain ls where v: "v = Arr ls"
    by (cases v) (simp_all add: is_array_def)
  with assms have "\<forall>l\<in>set ls. \<exists>y. format_line l = Inr y"
    by (auto simp: list_all_iff dest: format_line_total)
  then obtain ys where "map_e format_line ls = Inr ys"
    by (blast dest: map_e_total)
  with v show ?thesis by (simp add: formatItems_Arr)
qed

lemma primitive_js_or_zero: "primitive x \<Longrightarrow> primitive (js_or x (Num (Fin 0)))"
  by (simp add: js_or_def primitive_def)

lemma not_nullish_prop_of: "\<not> nullish (prop_of v name) \<Longrightarrow> \<not> nullish v"
  by (auto simp: nullish_def)

lemma checkout_coupon_total:
  assumes "\<not> nullish checkout"
  shows "\<exists>c. checkout_coupon checkout = Inr c"
proof (cases "nullish (prop_of checkout ''discountApplications'')")
  case True
  with assms show ?thesis
    by (simp add: checkout_coupon_def get_prop_total)
next
  case False
  from get_index_total [OF this] obtain d where
    "get_index (prop_of checkout ''discountApplications'') 0 = Inr d" by blast
  with assms False show ?thesis
    by (simp add: checkout_coupon_def get_prop_total)
qed

lemma checkout_completed_payload_total:
  assumes "well_formed_checkout checkout"
    and "checkout = prop_of (prop_of event ''data'') ''checkout''"
  shows "\<exists>payload. checkout_completed_payload event = Inr payload"
proof -
  let ?order = "prop_of checkout ''order''"
  let ?sl = "prop_of checkout ''shippingLine''"
  from assms(1) have id: "\<not> nullish (prop_of ?order ''id'')" "primitive (prop_of ?order ''id'')"
    and lines: "case prop_of checkout ''lineItems'' of Arr ls \<Rightarrow> list_all well_formed_line ls | _ \<Rightarrow> True"
    and tp: "\<not> nullish (prop_of checkout ''totalPrice'')"
      "primitive (prop_of (prop_of checkout ''totalPrice'') ''amount'')"
    and tt: "primitive (prop_of (prop_of checkout ''totalTax'') ''amount'')"
    and sl: "nullish ?sl \<or> (\<not> nullish (prop_of ?sl ''price'') \<and>
         primitive (prop_of (prop_of ?sl ''price'') ''amount''))"
    by (simp_all add: well_formed_checkout_def split: if_splits)
  from id(1) have no: "\<not> nullish ?order" by (rule not_nullish_prop_of)
  then have nc: "\<not> nullish checkout" by (rule not_nullish_prop_of)
  then have nd: "\<not> nullish (prop_of event ''data'')"
    unfolding assms(2) by (rule not_nullish_prop_of)
  then have ne: "\<not> nullish event" by (rule not_nullish_prop_of)
  from formatItems_total [OF lines] obtain items where
    items: "formatItems (prop_of checkout ''lineItems'') = Inr items" by blast
  from to_string_primitive [OF id(2)] id(1) obtain tid where
    tid: "call_toString (prop_of ?order ''id'') = Inr tid"
    by (auto simp: call_toString_def)
  from parseFloat_primitive [OF tp(2)] obtain "value" where
    v: "parseFloat (prop_of (prop_of checkout ''totalPrice'') ''amount'') = Inr value" by blast
  from parseFloat_primitive [OF primitive_js_or_zero [OF tt]] obtain tax where
    tax: "parseFloat (js_or (prop_of (prop_of checkout ''totalTax'') ''amount'') (Num (Fin 0))) = Inr tax"
    by blast
  have "primitive (prop_of (prop_of ?sl ''price'') ''amount'')"
    using sl by (auto simp: primitive_def)
  from parseFloat_primitive [OF primitive_js_or_zero [OF this]] obtain shipping where
    sh: "parseFloat (js_or (prop_of (prop_of ?sl ''price'') ''amount'') (Num (Fin 0))) = Inr shipping"
    by blast
  have sa: "(if nullish ?sl then Inr Undefined
            else bindE (get_prop ?sl ''price'') (\<lambda>price. get_prop price ''amount''))
          = Inr (prop_of (prop_of ?sl ''price'') ''amount'')"
    using sl by (auto simp: get_prop_total)
  from checkout_coupon_total [OF nc] obtain c where c: "checkout_coupon checkout = Inr c"
    by blast
  have g: "get_prop event ''data'' = Inr (prop_of event ''data'')"
    "get_prop (prop_of event ''data'') ''checkout'' = Inr checkout"
    "\<And>name. get_prop checkout name = Inr (prop_of checkout name)"
    "\<And>name. get_prop ?order name = Inr (prop_of ?order name)"
    "\<And>name. get_prop (prop_of checkout ''totalPrice'') name
        = Inr (prop_of (prop_of checkout ''totalPrice'') name)"
    using ne nd nc no tp(1) by (simp_all add: get_prop_total assms(2))
  show ?thesis
    unfolding checkout_completed_payload_def
    by (simp add: g items tid v tax sa sh c Let_def)
qed

text \<open>
  C6. On a well-formed checkout the checkout-completed listener builds a payload.
  Whenever it builds one, the \<open>transaction_id\<close> of the payload is a string: the order id converted by \<^verbatim>\<open>toString()\<close>, for a numeric id the number
  written out. The \<open>tax\<close> is 0 when the checkout has no total tax or the total tax no
  amount, and the \<open>shipping\<close> is 0 when the checkout has no shipping line or its price no
  amount. With a sink installed the listener returns normally and this payload is what
  the sink receives, as the event \<open>purchase\<close>.
\<close>

theorem checkout_completed_fields:
  assumes "checkout = prop_of (prop_of event ''data'') ''checkout''"
  shows "(well_formed_checkout checkout \<longrightarrow>
       (\<exists>payload. checkout_completed_payload event = Inr payload)) \<and>
    (checkout_completed_payload event = Inr payload \<longrightarrow>
       (\<exists>s. call_toString (prop_of (prop_of checkout ''order'') ''id'') = Inr s \<and>
          field payload ''transaction_id'' = Some (Str s)) \<and>
       (prop_of (prop_of checkout ''order'') ''id'' = Num n \<longrightarrow>
          field payload ''transaction_id'' = Some (Str (number_to_string n))) \<and>
       (nullish (prop_of checkout ''totalTax'') \<or>
        nullish (prop_of (prop_of checkout ''totalTax'') ''amount'') \<longrightarrow>
          field payload ''tax'' = Some (Num (Fin 0))) \<and>
       (nullish (prop_of checkout ''shippingLine'') \<or>
        nullish (prop_of (prop_of (prop_of checkout ''shippingLine'') ''price'') ''amount'') \<longrightarrow>
          field payload ''shipping'' = Some (Num (Fin 0))) \<and>
       (gtag w = Some f \<longrightarrow>
          fst (checkout_completed event w) = Inr () \<and>
          sink_calls (snd (checkout_completed event w)) = sink_calls w @ [(''purchase'', payload)]))"
proof
  show "well_formed_checkout checkout \<longrightarrow>
       (\<exists>payload. checkout_completed_payload event = Inr payload)"
    using checkout_completed_payload_total [OF _ assms] by blast
  show "checkout_completed_payload event = Inr payload \<longrightarrow>
       (\<exists>s. call_toString (prop_of (prop_of checkout ''order'') ''id'') = Inr s \<and>
          field payload ''transaction_id'' = Some (Str s)) \<and>
       (prop_of (prop_of checkout ''order'') ''id'' = Num n \<longrightarrow>
          field payload ''transaction_id'' = Some (Str (number_to_string n))) \<and>
       (nullish (prop_of checkout ''totalTax'') \<or>
        nullish (prop_of (prop_of checkout ''totalTax'') ''amount'') \<longrightarrow>
          field payload ''tax'' = Some (Num (Fin 0))) \<and>
       (nullish (prop_of checkout ''shippingLine'') \<or>
        nullish (prop_of (prop_of (prop_of checkout ''shippingLine'') ''price'') ''amount'') \<longrightarrow>
          field payload ''shipping'' = Some (Num (Fin 0))) \<and>
       (gtag w = Some f \<longrightarrow>
          fst (checkout_completed event w) = Inr () \<and>
          sink_calls (snd (checkout_completed event w)) = sink_calls w @ [(''purchase'', payload)])"
    using checkout_completed_payload_fields [OF _ assms, of payload n w f] by blast
qed

text \<open>An order whose id is the number 1001, without tax and shipping line.\<close>

lemma purchase_payload:
  "checkout_completed_payload purchase_event = Inr (Obj
    [(''transaction_id'', Str ''1001''),
     (''currency'', Str ''EUR''),
     (''value'', Num (Fin (11 / 2))),
     (''tax'', Num (Fin 0)),
     (''shipping'', Num (Fin 0)),
     (''items'', Arr
       [Obj [(''item_id'', Str ''shopify_DE_42_42''),
             (''item_name'', Str ''Mug''),
             (''item_variant'', Str ''Mug''),
             (''item_brand'', Str ''Brand Name''),
             (''item_category'', Str ''Kitchen''),
             (''price'', Num (Fin (11 / 2))),
             (''quantity'', Num (Fin 1))]])])"
proof -
  have "formatItems (Arr [mug_line]) = Inr
       [Obj [(''item_id'', Str ''shopify_DE_42_42''),
             (''item_name'', Str ''Mug''),
             (''item_variant'', Str ''Mug''),
             (''item_brand'', Str ''Brand Name''),
             (''item_category'', Str ''Kitchen''),
             (''price'', Num (Fin (11 / 2))),
             (''quantity'', Num (Fin 1))]]"
    using mug_line_item by (simp add: formatItems_Arr format_line_eq line_variants)
  then show ?thesis
    by (simp add: purchase_event_def checkout_completed_payload_def checkout_coupon_def
        call_toString_def get_prop_def nullish_def js_or_def parseFloat_def CURRENCY_def
        small_numbers_as_strings number_eval string_eval)
qed

theorem checkout_completed_fields_witness:
  "well_formed_checkout (prop_of (prop_of purchase_event ''data'') ''checkout'') \<and>
   prop_of (prop_of (prop_of (prop_of purchase_event ''data'') ''checkout'') ''order'') ''id''
     = Num (Fin 1001) \<and>
   nullish (prop_of (prop_of (prop_of purchase_event ''data'') ''checkout'') ''totalTax'') \<and>
   nullish (prop_of (prop_of (prop_of purchase_event ''data'') ''checkout'') ''shippingLine'') \<and>
   number_to_string (Fin 1001) = ''1001'' \<and>
   sink_calls (snd (checkout_completed purchase_event quiet_world)) =
     [(''purchase'', Obj
    [(''transaction_id'', Str ''1001''),
     (''currency'', Str ''EUR''),
     (''value'', Num (Fin (11 / 2))),
     (''tax'', Num (Fin 0)),
     (''shipping'', Num (Fin 0)),
     (''items'', Arr
       [Obj [(''item_id'', Str ''shopify_DE_42_42''),
             (''item_name'', Str ''Mug''),
             (''item_variant'', Str ''Mug''),
             (''item_brand'', Str ''Brand Name''),
             (''item_category'', Str ''Kitchen''),
             (''price'', Num (Fin (11 / 2))),
             (''quantity'', Num (Fin 1))]])])]"
proof -
  have 1: "prop_of (prop_of (prop_of (prop_of purchase_event ''data'') ''checkout'') ''order'') ''id''
     = Num (Fin 1001)"
    "nullish (prop_of (prop_of (prop_of purchase_event ''data'') ''checkout'') ''totalTax'')"
    "nullish (prop_of (prop_of (prop_of purchase_event ''data'') ''checkout'') ''shippingLine'')"
    "number_to_string (Fin 1001) = ''1001''"
    by (simp_all add: purchase_event_def prop_of_def get_prop_def nullish_def
        small_numbers_as_strings)
  have g: "gtag quiet_world = Some (\<lambda>calls eventName params. None)" "sink_calls quiet_world = []"
    by (simp_all add: quiet_world_def)
  have wf: "well_formed_checkout (prop_of (prop_of purchase_event ''data'') ''checkout'')"
    using example_lines_well_formed(2)
    by (simp add: well_formed_checkout_def purchase_event_def prop_of_def get_prop_def
        nullish_def primitive_def)
  from checkout_completed_fields [OF refl, of purchase_event _ "Fin 1001" quiet_world
      "\<lambda>calls eventName params. None"] purchase_payload wf 1 g
  show ?thesis by simp
qed

end
